theory Spec2Isabelle
  imports
    Complex_Main
    "HOL-Library.Char_ord"
    "HOL-Library.List_Lexorder"
    "HOL-Library.Product_Lexorder"
    "HOL-Library.Multiset"
begin

section \<open>Treasury report pipeline: the data model\<close>

text \<open>
  The report script works on pandas data frames. A frame is modelled as its list of
  column names together with its rows in index order. A missing value (NaN, NaT) is
  \<open>None\<close> or \<open>Nulo\<close>, and a date is the triple (year, month, day), ordered
  chronologically by the lexicographic order on triples. The date column is held as
  \<open>read_csv\<close> with \<open>parse_dates\<close> delivers it: parsed dates or missing values.

  pandas holds the amounts as 64-bit floating-point numbers and rounds every sum. Here an
  amount is an exact rational and a sum is the exact sum: what is said below about which
  rows a total is taken over, about order and about structure is said of the program;
  nothing is said about the rounding of its sums, and an equality between sums taken in
  different orders is an equality of exact sums only.
\<close>

type_synonym fecha_t = "int \<times> int \<times> int"

text \<open>A cell of the amount column as read from the file: missing, a number, or text.\<close>

datatype celda = Nulo | Num rat | Txt string

record fila =
  id_movimiento :: "int option"
  fecha :: "fecha_t option"
  producto_id :: "int option"
  tipo_operacion :: "string option"
  monto :: celda
  moneda :: "string option"
  contraparte :: "string option"
  descripcion :: "string option"
  nombre_producto :: "string option"
  monto_neto :: "rat option"
  mes :: "string option"

record frame =
  columnas :: "string list"
  filas :: "fila list"

text \<open>
  Frames are Python objects: a variable holds a reference, and \<open>df[c] = ...\<close>
  changes the object every holder of the reference sees. The store is the list of all
  frame objects, a reference is a position in it.
\<close>

type_synonym ref = nat
type_synonym heap = "frame list"

definition nuevo :: "heap \<Rightarrow> frame \<Rightarrow> heap \<times> ref" where
  "nuevo h f = (h @ [f], length h)"

text \<open>\<open>df[c] = v\<close>: the column is appended when the frame lacks it, and every row
  receives its new value; the object is updated in place.\<close>

definition con_columna :: "string \<Rightarrow> (fila \<Rightarrow> fila) \<Rightarrow> frame \<Rightarrow> frame" where
  "con_columna c upd f =
     \<lparr>columnas = (if c \<in> set (columnas f) then columnas f else columnas f @ [c]),
      filas = map upd (filas f)\<rparr>"

definition asignar_columna :: "heap \<Rightarrow> ref \<Rightarrow> string \<Rightarrow> (fila \<Rightarrow> fila) \<Rightarrow> heap" where
  "asignar_columna h r c upd = h[r := con_columna c upd (h ! r)]"

section \<open>Loading: \<open>cargar_datos\<close>\<close>

text \<open>
  \<open>df.merge(productos, on="producto_id", how="left")\<close>: every movement is kept, in
  order, once per product row with the same key in the order of the product table, and
  once with a missing product name when no product row matches. pandas matches a missing
  key with a missing key.
\<close>

definition merge_left :: "(int option \<times> string option) list \<Rightarrow> fila \<Rightarrow> fila list" where
  "merge_left productos r =
     (case filter (\<lambda>p. fst p = producto_id r) productos of
        [] \<Rightarrow> [r\<lparr>nombre_producto := None\<rparr>]
      | ps \<Rightarrow> map (\<lambda>p. r\<lparr>nombre_producto := snd p\<rparr>) ps)"

definition cargar_datos :: "frame \<Rightarrow> (int option \<times> string option) list \<Rightarrow> frame" where
  "cargar_datos movimientos productos =
     \<lparr>columnas = columnas movimientos @ [''nombre_producto''],
      filas = concat (map (merge_left productos) (filas movimientos))\<rparr>"

section \<open>Cleaning: \<open>limpiar_datos\<close>\<close>

text \<open>\<open>drop_duplicates(subset="id_movimiento")\<close> keeps the first row of every id;
  two missing ids count as equal.\<close>

fun drop_duplicates_aux :: "int option list \<Rightarrow> fila list \<Rightarrow> fila list" where
  "drop_duplicates_aux vistos [] = []"
| "drop_duplicates_aux vistos (r # rs) =
     (if id_movimiento r \<in> set vistos then drop_duplicates_aux vistos rs
      else r # drop_duplicates_aux (id_movimiento r # vistos) rs)"

definition drop_duplicates :: "frame \<Rightarrow> frame" where
  "drop_duplicates f = f\<lparr>filas := drop_duplicates_aux [] (filas f)\<rparr>"

text \<open>\<open>dropna(subset=["fecha", "monto", "tipo_operacion", "moneda"])\<close>.\<close>

definition criticas_presentes :: "fila \<Rightarrow> bool" where
  "criticas_presentes r \<longleftrightarrow>
     fecha r \<noteq> None \<and> monto r \<noteq> Nulo \<and> tipo_operacion r \<noteq> None \<and> moneda r \<noteq> None"

definition dropna_criticas :: "frame \<Rightarrow> frame" where
  "dropna_criticas f = f\<lparr>filas := filter criticas_presentes (filas f)\<rparr>"

definition dropna_monto :: "frame \<Rightarrow> frame" where
  "dropna_monto f = f\<lparr>filas := filter (\<lambda>r. monto r \<noteq> Nulo) (filas f)\<rparr>"

text \<open>\<open>pd.to_numeric(..., errors="coerce")\<close> on one cell. How pandas reads a text
  as a number is the library's business: it is the parameter \<open>lee\<close>, which answers
  \<open>None\<close> where the coercion fails.\<close>

fun to_numeric :: "(string \<Rightarrow> rat option) \<Rightarrow> celda \<Rightarrow> celda" where
  "to_numeric lee Nulo = Nulo"
| "to_numeric lee (Num x) = Num x"
| "to_numeric lee (Txt s) = (case lee s of None \<Rightarrow> Nulo | Some x \<Rightarrow> Num x)"

text \<open>\<open>str.lower\<close>, \<open>str.upper\<close> and \<open>str.strip\<close> on the ASCII range; other
  bytes are left as they are.\<close>

definition lower_char :: "char \<Rightarrow> char" where
  "lower_char c =
     (let n = (of_char c :: nat) in if 65 \<le> n \<and> n \<le> 90 then char_of (n + 32) else c)"

definition upper_char :: "char \<Rightarrow> char" where
  "upper_char c =
     (let n = (of_char c :: nat) in if 97 \<le> n \<and> n \<le> 122 then char_of (n - 32) else c)"

definition espacio :: "char \<Rightarrow> bool" where
  "espacio c \<longleftrightarrow> (of_char c :: nat) \<in> {9, 10, 11, 12, 13, 28, 29, 30, 31, 32}"

definition str_lower :: "string \<Rightarrow> string" where
  "str_lower s = map lower_char s"

definition str_upper :: "string \<Rightarrow> string" where
  "str_upper s = map upper_char s"

definition str_strip :: "string \<Rightarrow> string" where
  "str_strip s = rev (dropWhile espacio (rev (dropWhile espacio s)))"

text \<open>The signed amount: \<open>r["monto"] if r["tipo_operacion"] == "ingreso" else -r["monto"]\<close>.\<close>

definition con_signo :: "fila \<Rightarrow> rat option" where
  "con_signo r =
     (case monto r of
        Num x \<Rightarrow> Some (if tipo_operacion r = Some ''ingreso'' then x else - x)
      | _ \<Rightarrow> None)"

text \<open>
  The function itself. Every \<open>df = df.op(...)\<close> binds the local name to a fresh
  object; every \<open>df[c] = ...\<close> updates the object the local name holds at that
  point. \<open>pd.to_datetime\<close> leaves a date column that is already parsed as it is.
  The function returns the store, the reference it returns, and the number of removed
  rows it prints.
\<close>

definition limpiar_datos ::
  "(string \<Rightarrow> rat option) \<Rightarrow> heap \<Rightarrow> ref \<Rightarrow> heap \<times> ref \<times> int" where
  "limpiar_datos lee h0 df0 =
     (let registros_antes = int (length (filas (h0 ! df0)));
          (h1, df1) = nuevo h0 (drop_duplicates (h0 ! df0));
          (h2, df2) = nuevo h1 (dropna_criticas (h1 ! df1));
          h3 = asignar_columna h2 df2 ''monto'' (\<lambda>r. r\<lparr>monto := to_numeric lee (monto r)\<rparr>);
          h4 = asignar_columna h3 df2 ''fecha'' (\<lambda>r. r);
          (h5, df3) = nuevo h4 (dropna_monto (h4 ! df2));
          h6 = asignar_columna h5 df3 ''tipo_operacion''
                 (\<lambda>r. r\<lparr>tipo_operacion := map_option (str_strip \<circ> str_lower) (tipo_operacion r)\<rparr>);
          h7 = asignar_columna h6 df3 ''moneda''
                 (\<lambda>r. r\<lparr>moneda := map_option (str_strip \<circ> str_upper) (moneda r)\<rparr>);
          h8 = asignar_columna h7 df3 ''monto_neto'' (\<lambda>r. r\<lparr>monto_neto := con_signo r\<rparr>);
          registros_despues = int (length (filas (h8 ! df3)));
          eliminados = registros_antes - registros_despues
      in (h8, df3, eliminados))"

text \<open>The value of the frame \<open>limpiar_datos\<close> returns, as a function of the value of
  the frame it is given.\<close>

definition normaliza :: "(string \<Rightarrow> rat option) \<Rightarrow> fila \<Rightarrow> fila" where
  "normaliza lee r =
     (let r1 = r\<lparr>monto := to_numeric lee (monto r)\<rparr>;
          r2 = r1\<lparr>tipo_operacion := map_option (str_strip \<circ> str_lower) (tipo_operacion r1)\<rparr>;
          r3 = r2\<lparr>moneda := map_option (str_strip \<circ> str_upper) (moneda r2)\<rparr>
      in r3\<lparr>monto_neto := con_signo r3\<rparr>)"

definition sobrevive :: "(string \<Rightarrow> rat option) \<Rightarrow> fila \<Rightarrow> bool" where
  "sobrevive lee r \<longleftrightarrow> criticas_presentes r \<and> to_numeric lee (monto r) \<noteq> Nulo"

definition con_columnas :: "string list \<Rightarrow> string list \<Rightarrow> string list" where
  "con_columnas cs nuevas = foldl (\<lambda>acc c. if c \<in> set acc then acc else acc @ [c]) cs nuevas"

definition limpio :: "(string \<Rightarrow> rat option) \<Rightarrow> frame \<Rightarrow> frame" where
  "limpio lee f =
     \<lparr>columnas = con_columnas (columnas f)
                   [''monto'', ''fecha'', ''tipo_operacion'', ''moneda'', ''monto_neto''],
      filas = map (normaliza lee) (filter (sobrevive lee) (drop_duplicates_aux [] (filas f)))\<rparr>"

section \<open>Aggregation: \<open>calcular_kpis\<close>\<close>

text \<open>
  A sum skips missing values. The aggregation is only ever given the cleaned frame,
  whose amounts are all numbers.
\<close>

definition valor :: "celda \<Rightarrow> rat" where
  "valor c = (case c of Num x \<Rightarrow> x | _ \<Rightarrow> 0)"

definition suma_monto :: "fila list \<Rightarrow> rat" where
  "suma_monto rs = sum_list (map (\<lambda>r. valor (monto r)) rs)"

definition suma_neto :: "fila list \<Rightarrow> rat" where
  "suma_neto rs = sum_list (map (\<lambda>r. case monto_neto r of Some x \<Rightarrow> x | None \<Rightarrow> 0) rs)"

text \<open>\<open>x[df.loc[x.index, "tipo_operacion"] == t].sum()\<close> on the rows of one group.\<close>

definition suma_tipo :: "string \<Rightarrow> fila list \<Rightarrow> rat" where
  "suma_tipo t rs = suma_monto (filter (\<lambda>r. tipo_operacion r = Some t) rs)"

text \<open>\<open>count\<close> counts the values that are not missing.\<close>

definition cuenta_id :: "fila list \<Rightarrow> nat" where
  "cuenta_id rs = length (filter (\<lambda>r. id_movimiento r \<noteq> None) rs)"

text \<open>\<open>mean\<close> over the numbers of the group (missing when there is none), and
  \<open>round(2)\<close>, which rounds halves to the even neighbour.\<close>

definition media_monto :: "fila list \<Rightarrow> rat option" where
  "media_monto rs =
     (let xs = filter (\<lambda>r. monto r \<noteq> Nulo) rs
      in if xs = [] then None else Some (suma_monto xs / of_nat (length xs)))"

definition round_half_even :: "rat \<Rightarrow> int" where
  "round_half_even x =
     (let f = \<lfloor>x\<rfloor>; d = x - of_int f
      in if d < 1 / 2 then f else if 1 / 2 < d then f + 1 else if even f then f else f + 1)"

definition round2 :: "rat \<Rightarrow> rat" where
  "round2 x = of_int (round_half_even (x * 100)) / 100"

text \<open>
  \<open>groupby(keys)\<close> leaves out every row with a missing key and emits the groups in
  ascending order of the key. \<open>claves k rs\<close> are the group keys, \<open>grupo k rs g\<close>
  the rows of group \<open>g\<close> in frame order.
\<close>

definition claves :: "(fila \<Rightarrow> 'k option) \<Rightarrow> fila list \<Rightarrow> ('k::linorder) list" where
  "claves k rs = sort (remdups (List.map_filter k rs))"

definition grupo :: "(fila \<Rightarrow> 'k option) \<Rightarrow> fila list \<Rightarrow> 'k \<Rightarrow> fila list" where
  "grupo k rs g = filter (\<lambda>r. k r = Some g) rs"

definition par :: "'a option \<Rightarrow> 'b option \<Rightarrow> ('a \<times> 'b) option" where
  "par a b = (case a of None \<Rightarrow> None | Some x \<Rightarrow> (case b of None \<Rightarrow> None | Some y \<Rightarrow> Some (x, y)))"

text \<open>\<open>sort_values(c, ascending=False)\<close> puts the rows in descending order of the
  column. The script asks for the default kind of sort, which pandas does not promise to
  be stable: the order of rows with equal keys is the library's choice. The function here
  is one sort the library may perform (it keeps rows with equal keys in their order);
  no theorem about the program depends on how it orders equal keys.\<close>

definition sort_values_desc :: "('a \<Rightarrow> 'k::linorder) \<Rightarrow> 'a list \<Rightarrow> 'a list" where
  "sort_values_desc f xs = rev (sort_key f (rev xs))"

subsection \<open>3.1 and 3.2: daily flow and running balance\<close>

record flujo =
  fd_fecha :: fecha_t
  fd_moneda :: string
  fd_total_ingresos :: rat
  fd_total_egresos :: rat
  fd_flujo_neto :: rat
  fd_n_operaciones :: nat
  fd_saldo_acumulado :: "rat option"

definition clave_fd :: "fila \<Rightarrow> (fecha_t \<times> string) option" where
  "clave_fd r = par (fecha r) (moneda r)"

definition agg_flujo :: "fila list \<Rightarrow> fecha_t \<times> string \<Rightarrow> flujo" where
  "agg_flujo rs g =
     (let x = grupo clave_fd rs g
      in \<lparr>fd_fecha = fst g, fd_moneda = snd g,
          fd_total_ingresos = suma_tipo ''ingreso'' x,
          fd_total_egresos = suma_tipo ''egreso'' x,
          fd_flujo_neto = suma_neto x,
          fd_n_operaciones = cuenta_id x,
          fd_saldo_acumulado = None\<rparr>)"

text \<open>\<open>groupby("moneda")["flujo_neto"].cumsum()\<close>: one running total per currency,
  advanced in row order.\<close>

fun cumsum_moneda :: "(string \<Rightarrow> rat) \<Rightarrow> flujo list \<Rightarrow> flujo list" where
  "cumsum_moneda acc [] = []"
| "cumsum_moneda acc (g # gs) =
     (let s = acc (fd_moneda g) + fd_flujo_neto g
      in g\<lparr>fd_saldo_acumulado := Some s\<rparr> # cumsum_moneda (acc(fd_moneda g := s)) gs)"

definition flujo_diario :: "fila list \<Rightarrow> flujo list" where
  "flujo_diario rs =
     cumsum_moneda (\<lambda>_. 0)
       (sort_key (\<lambda>g. (fd_fecha g, fd_moneda g)) (map (agg_flujo rs) (claves clave_fd rs)))"

subsection \<open>3.3: summary by product\<close>

record producto =
  pp_nombre_producto :: string
  pp_moneda :: string
  pp_n_operaciones :: nat
  pp_total_ingresos :: rat
  pp_total_egresos :: rat
  pp_monto_promedio :: "rat option"

definition clave_pp :: "fila \<Rightarrow> (string \<times> string) option" where
  "clave_pp r = par (nombre_producto r) (moneda r)"

definition agg_producto :: "fila list \<Rightarrow> string \<times> string \<Rightarrow> producto" where
  "agg_producto rs g =
     (let x = grupo clave_pp rs g
      in \<lparr>pp_nombre_producto = fst g, pp_moneda = snd g,
          pp_n_operaciones = cuenta_id x,
          pp_total_ingresos = suma_tipo ''ingreso'' x,
          pp_total_egresos = suma_tipo ''egreso'' x,
          pp_monto_promedio = media_monto x\<rparr>)"

definition por_producto :: "fila list \<Rightarrow> producto list" where
  "por_producto rs =
     map (\<lambda>p. p\<lparr>pp_monto_promedio := map_option round2 (pp_monto_promedio p)\<rparr>)
       (sort_values_desc pp_total_ingresos (map (agg_producto rs) (claves clave_pp rs)))"

subsection \<open>3.4: top ten counterparties\<close>

record contraparte_vol =
  tc_contraparte :: string
  tc_n_operaciones :: nat
  tc_volumen_total :: rat
  tc_monto_promedio :: "rat option"

definition agg_contraparte :: "fila list \<Rightarrow> string \<Rightarrow> contraparte_vol" where
  "agg_contraparte rs g =
     (let x = grupo contraparte rs g
      in \<lparr>tc_contraparte = g,
          tc_n_operaciones = cuenta_id x,
          tc_volumen_total = suma_monto x,
          tc_monto_promedio = media_monto x\<rparr>)"

text \<open>The view with the library's sort as a parameter, and the view of the model.\<close>

definition top_contrapartes_con ::
  "((contraparte_vol \<Rightarrow> rat) \<Rightarrow> contraparte_vol list \<Rightarrow> contraparte_vol list) \<Rightarrow>
   fila list \<Rightarrow> contraparte_vol list" where
  "top_contrapartes_con ordena rs =
     map (\<lambda>p. p\<lparr>tc_monto_promedio := map_option round2 (tc_monto_promedio p)\<rparr>)
       (take 10 (ordena tc_volumen_total
          (map (agg_contraparte rs) (claves contraparte rs))))"

definition top_contrapartes :: "fila list \<Rightarrow> contraparte_vol list" where
  "top_contrapartes rs = top_contrapartes_con sort_values_desc rs"

subsection \<open>3.5: liquidity alerts\<close>

record alerta =
  al_fecha :: fecha_t
  al_flujo_neto :: rat
  al_saldo_acumulado :: "rat option"
  al_estado :: string

text \<open>The state text is a warning sign (three bytes in UTF-8) followed by
  \<open>FLUJO NEGATIVO\<close>.\<close>

definition estado_alerta :: string where
  "estado_alerta = [char_of (226::nat), char_of (154::nat), char_of (160::nat)] @ '' FLUJO NEGATIVO''"

definition alertas_de :: "flujo list \<Rightarrow> alerta list" where
  "alertas_de fd =
     (let flujo_pen = filter (\<lambda>g. fd_moneda g = ''PEN'') fd;
          neg = filter (\<lambda>g. fd_flujo_neto g < 0) flujo_pen
      in sort_key al_flujo_neto
           (map (\<lambda>g. \<lparr>al_fecha = fd_fecha g, al_flujo_neto = fd_flujo_neto g,
                      al_saldo_acumulado = fd_saldo_acumulado g,
                      al_estado = estado_alerta\<rparr>) neg))"

subsection \<open>3.6: monthly summary\<close>

text \<open>\<open>df["fecha"].dt.to_period("M").astype(str)\<close>: year and month as
  \<open>YYYY-MM\<close>; a missing date gives the text \<open>NaT\<close>.\<close>

definition digito :: "int \<Rightarrow> char" where
  "digito n = ''0123456789'' ! nat (n mod 10)"

definition str_mes :: "fecha_t option \<Rightarrow> string" where
  "str_mes d =
     (case d of
        None \<Rightarrow> ''NaT''
      | Some (a, m, _) \<Rightarrow>
          [digito (a div 1000), digito (a div 100), digito (a div 10), digito a, CHR ''-'',
           digito (m div 10), digito m])"

record mensual =
  rm_mes :: string
  rm_moneda :: string
  rm_total_ingresos :: rat
  rm_total_egresos :: rat
  rm_flujo_neto :: rat

definition clave_rm :: "fila \<Rightarrow> (string \<times> string) option" where
  "clave_rm r = par (mes r) (moneda r)"

definition agg_mensual :: "fila list \<Rightarrow> string \<times> string \<Rightarrow> mensual" where
  "agg_mensual rs g =
     (let x = grupo clave_rm rs g
      in \<lparr>rm_mes = fst g, rm_moneda = snd g,
          rm_total_ingresos = suma_tipo ''ingreso'' x,
          rm_total_egresos = suma_tipo ''egreso'' x,
          rm_flujo_neto = suma_neto x\<rparr>)"

definition resumen_mensual :: "fila list \<Rightarrow> mensual list" where
  "resumen_mensual rs = map (agg_mensual rs) (claves clave_rm rs)"

subsection \<open>The function\<close>

text \<open>
  The first four views read the frame the caller passed. Then \<open>df["mes"] = ...\<close>
  writes the month column into that same object, and the monthly summary reads the
  updated object. The function returns the store and the five views.
\<close>

type_synonym vistas =
  "flujo list \<times> producto list \<times> contraparte_vol list \<times> alerta list \<times> mensual list"

definition calcular_kpis :: "heap \<Rightarrow> ref \<Rightarrow> heap \<times> vistas" where
  "calcular_kpis h0 df =
     (let fd = flujo_diario (filas (h0 ! df));
          pp = por_producto (filas (h0 ! df));
          tc = top_contrapartes (filas (h0 ! df));
          al = alertas_de fd;
          h1 = asignar_columna h0 df ''mes'' (\<lambda>r. r\<lparr>mes := Some (str_mes (fecha r))\<rparr>);
          rm = resumen_mensual (filas (h1 ! df))
      in (h1, (fd, pp, tc, al, rm)))"

section \<open>Export: \<open>exportar_excel\<close>\<close>

text \<open>
  The workbook is the list of its sheets in the order they are written, each with its
  name and its content. \<open>n_filas\<close> counts the data rows of a sheet (the header row
  apart).
\<close>

datatype hoja =
    HojaFlujo "flujo list"
  | HojaMensual "mensual list"
  | HojaProducto "producto list"
  | HojaContrapartes "contraparte_vol list"
  | HojaAlertas "alerta list"
  | HojaMensaje "string list"
  | HojaDatos frame

fun n_filas :: "hoja \<Rightarrow> nat" where
  "n_filas (HojaFlujo xs) = length xs"
| "n_filas (HojaMensual xs) = length xs"
| "n_filas (HojaProducto xs) = length xs"
| "n_filas (HojaContrapartes xs) = length xs"
| "n_filas (HojaAlertas xs) = length xs"
| "n_filas (HojaMensaje xs) = length xs"
| "n_filas (HojaDatos f) = length (filas f)"

text \<open>\<open>df_raw.drop(columns=["monto_neto", "mes"], errors="ignore")\<close> gives a new
  frame without the two columns; a column that is not there is passed over.\<close>

definition drop_columnas_internas :: "frame \<Rightarrow> frame" where
  "drop_columnas_internas f =
     \<lparr>columnas = filter (\<lambda>c. c \<noteq> ''monto_neto'' \<and> c \<noteq> ''mes'') (columnas f),
      filas = map (\<lambda>r. r\<lparr>monto_neto := None, mes := None\<rparr>) (filas f)\<rparr>"

text \<open>The message of the empty alerts sheet; the accented letter is two bytes in
  UTF-8.\<close>

definition sin_alertas :: string where
  "sin_alertas = ''Sin alertas en el per'' @ [char_of (195::nat), char_of (173::nat)] @ ''odo''"

definition exportar_excel ::
  "heap \<Rightarrow> ref \<Rightarrow> flujo list \<Rightarrow> producto list \<Rightarrow> contraparte_vol list \<Rightarrow> alerta list \<Rightarrow>
   mensual list \<Rightarrow> (string \<times> hoja) list" where
  "exportar_excel h df_raw fd pp tc al rm =
     [(''Flujo Diario'', HojaFlujo fd),
      (''Resumen Mensual'', HojaMensual rm),
      (''Por Producto'', HojaProducto pp),
      (''Top Contrapartes'', HojaContrapartes tc),
      (''Alertas Liquidez'', if 0 < length al then HojaAlertas al else HojaMensaje [sin_alertas]),
      (''Data Completa'', HojaDatos (drop_columnas_internas (h ! df_raw)))]"

section \<open>The data generator\<close>

text \<open>
  The generator script has its parameters as module constants; they are the record
  \<open>config\<close> here, so that other settings can be examined. A Python \<open>date\<close> is its
  ordinal (day 1 is Monday 1 January of year 1, the last one is 31 December 9999), and
  the pseudo-random generator is a parameter: \<open>azar i\<close> is the \<open>i\<close>-th draw, a
  number in the unit interval.
\<close>

datatype error = IndexError | KeyError | OverflowError

record config =
  fecha_inicio :: int
  fecha_fin :: int
  n_registros :: int
  productos :: "(int \<times> string) list"

record registro =
  reg_id_movimiento :: int
  reg_fecha :: int
  reg_producto_id :: int
  reg_tipo_operacion :: string
  reg_monto :: rat
  reg_moneda :: string
  reg_contraparte :: string
  reg_descripcion :: string

definition monedas :: "string list" where
  "monedas = [''PEN'', ''USD'']"

definition tipos_op :: "string list" where
  "tipos_op = [''ingreso'', ''egreso'']"

definition contrapartes :: "string list" where
  "contrapartes =
     [''BCP'', ''BBVA'', ''Interbank'', ''Scotiabank'', ''Citibank'', ''BCRP'',
      ''Cliente A'', ''Cliente B'', ''Cliente C'']"

definition max_ordinal :: int where
  "max_ordinal = 3652059"

definition weekday :: "int \<Rightarrow> int" where
  "weekday d = (d + 6) mod 7"

text \<open>The \<open>while d <= FECHA_FIN\<close> loop. \<open>d += timedelta(days=1)\<close> raises
  \<open>OverflowError\<close> when it is asked to step past the last date.\<close>

function bucle_fechas :: "int \<Rightarrow> int \<Rightarrow> int list \<Rightarrow> error + int list" where
  "bucle_fechas fin d acc =
     (if d \<le> fin then
        (let acc' = (if weekday d < 5 then acc @ [d] else acc)
         in if max_ordinal \<le> d then Inl OverflowError else bucle_fechas fin (d + 1) acc')
      else Inr acc)"
  by pat_completeness auto
termination
  by (relation "measure (\<lambda>(fin, d, acc). nat (fin + 1 - d))") auto

declare bucle_fechas.simps [simp del]

text \<open>\<open>random.choice(seq)\<close> raises \<open>IndexError\<close> on an empty sequence and
  otherwise returns the element the draw selects.\<close>

definition choice :: "'a list \<Rightarrow> rat \<Rightarrow> error + 'a" where
  "choice xs u =
     (if xs = [] then Inl IndexError
      else Inr (xs ! (nat \<lfloor>u * of_nat (length xs)\<rfloor> mod length xs)))"

text \<open>\<open>random.choices(MONEDAS, weights=[0.6, 0.4])[0]\<close> and
  \<open>random.uniform(a, b)\<close>.\<close>

definition choices_moneda :: "rat \<Rightarrow> string" where
  "choices_moneda u = monedas ! (if u < 3 / 5 then 0 else 1)"

definition uniform :: "rat \<Rightarrow> rat \<Rightarrow> rat \<Rightarrow> rat" where
  "uniform a b u = a + (b - a) * u"

definition rango_monto :: "int \<Rightarrow> rat \<times> rat" where
  "rango_monto p =
     (if p = 2 then (500000, 5000000)
      else if p = 4 then (200000, 2000000)
      else if p = 1 then (50000, 1000000)
      else (5000, 300000))"

definition nombre_de :: "(int \<times> string) list \<Rightarrow> int \<Rightarrow> string" where
  "nombre_de ps k = (case map_of ps k of Some n \<Rightarrow> n | None \<Rightarrow> [])"

text \<open>One turn of the \<open>for i in range(1, N_REGISTROS + 1)\<close> loop; it uses six draws,
  starting at draw \<open>6 * (i - 1)\<close>.\<close>

definition un_registro ::
  "config \<Rightarrow> (nat \<Rightarrow> rat) \<Rightarrow> int list \<Rightarrow> int \<Rightarrow> error + registro" where
  "un_registro cfg azar fechas_habiles i =
     (let k = 6 * nat (i - 1)
      in case choice fechas_habiles (azar k) of
           Inl e \<Rightarrow> Inl e
         | Inr f \<Rightarrow>
             (case choice (map fst (productos cfg)) (azar (k + 1)) of
                Inl e \<Rightarrow> Inl e
              | Inr p \<Rightarrow>
                  (case choice tipos_op (azar (k + 2)) of
                     Inl e \<Rightarrow> Inl e
                   | Inr tipo_op \<Rightarrow>
                       (let m = choices_moneda (azar (k + 3));
                            x = round2 (uniform (fst (rango_monto p)) (snd (rango_monto p))
                                  (azar (k + 4)))
                        in case choice contrapartes (azar (k + 5)) of
                             Inl e \<Rightarrow> Inl e
                           | Inr c \<Rightarrow>
                               Inr \<lparr>reg_id_movimiento = i, reg_fecha = f,
                                    reg_producto_id = p,
                                    reg_tipo_operacion = tipo_op, reg_monto = x,
                                    reg_moneda = m, reg_contraparte = c,
                                    reg_descripcion =
                                      nombre_de (productos cfg) p @ '' - '' @ c\<rparr>))))"

fun bucle_registros ::
  "config \<Rightarrow> (nat \<Rightarrow> rat) \<Rightarrow> int list \<Rightarrow> int list \<Rightarrow> registro list \<Rightarrow> error + registro list" where
  "bucle_registros cfg azar fechas_habiles [] registros = Inr registros"
| "bucle_registros cfg azar fechas_habiles (i # is) registros =
     (case un_registro cfg azar fechas_habiles i of
        Inl e \<Rightarrow> Inl e
      | Inr r \<Rightarrow> bucle_registros cfg azar fechas_habiles is (registros @ [r]))"

text \<open>
  The script as a whole: the dates, the records, the table sorted by date (pandas raises
  \<open>KeyError\<close> for the column \<open>fecha\<close> of a table built from no record), the product
  table, and then the two files it writes. The order pandas gives to records of the same
  date is left to the library; the sort here keeps them in generation order.
\<close>

definition generar ::
  "config \<Rightarrow> (nat \<Rightarrow> rat) \<Rightarrow> error + (registro list \<times> (int \<times> string) list)" where
  "generar cfg azar =
     (case bucle_fechas (fecha_fin cfg) (fecha_inicio cfg) [] of
        Inl e \<Rightarrow> Inl e
      | Inr fechas_habiles \<Rightarrow>
          (case bucle_registros cfg azar fechas_habiles [1 .. n_registros cfg] [] of
             Inl e \<Rightarrow> Inl e
           | Inr registros \<Rightarrow>
               if registros = [] then Inl KeyError
               else Inr (sort_key reg_fecha registros, productos cfg)))"

section \<open>Sample data\<close>

definition fila_ej ::
  "int \<Rightarrow> fecha_t \<Rightarrow> int \<Rightarrow> string \<Rightarrow> celda \<Rightarrow> string \<Rightarrow> string \<Rightarrow> fila" where
  "fila_ej i d p t m c cp =
     \<lparr>id_movimiento = Some i, fecha = Some d, producto_id = Some p, tipo_operacion = Some t,
      monto = m, moneda = Some c, contraparte = Some cp, descripcion = Some cp,
      nombre_producto = None, monto_neto = None, mes = None\<rparr>"

definition columnas_csv :: "string list" where
  "columnas_csv =
     [''id_movimiento'', ''fecha'', ''producto_id'', ''tipo_operacion'', ''monto'', ''moneda'',
      ''contraparte'', ''descripcion'']"

definition lee_ej :: "string \<Rightarrow> rat option" where
  "lee_ej s = (if s = ''250.5'' then Some (501 / 2) else None)"

definition productos_ej :: "(int option \<times> string option) list" where
  "productos_ej = [(Some 1, Some ''Overnight''), (Some 2, Some ''Repo'')]"

text \<open>
  Eight movements: the three of the end-to-end example, a repeated id, a movement of a
  product that is not in the catalogue with its amount as text and its labels in another
  case, a movement of an unknown operation type, an amount that is no number, and a
  missing date.
\<close>

definition movimientos_ej :: frame where
  "movimientos_ej =
     \<lparr>columnas = columnas_csv,
      filas =
        [fila_ej 1 (2024, 1, 2) 1 ''ingreso'' (Num 100) ''PEN'' ''BCP'',
         fila_ej 2 (2024, 1, 2) 1 ''egreso'' (Num 40) ''PEN'' ''BBVA'',
         fila_ej 3 (2024, 1, 3) 2 ''ingreso'' (Num 50) ''USD'' ''BCP'',
         fila_ej 1 (2024, 1, 4) 1 ''ingreso'' (Num 999) ''PEN'' ''BCP'',
         fila_ej 5 (2024, 1, 4) 9 '' Egreso '' (Txt ''250.5'') ''pen'' ''Citibank'',
         fila_ej 6 (2024, 1, 5) 2 ''ajuste'' (Num 10) ''PEN'' ''BBVA'',
         fila_ej 7 (2024, 1, 5) 1 ''ingreso'' (Txt ''n/a'') ''USD'' ''BCP'',
         (fila_ej 8 (2024, 1, 5) 1 ''ingreso'' (Num 5) ''USD'' ''BCP'')\<lparr>fecha := None\<rparr>]\<rparr>"

definition datos_ej :: frame where
  "datos_ej = cargar_datos movimientos_ej productos_ej"

text \<open>Two movements, the first with a negative amount of larger magnitude.\<close>

definition negativo_ej :: frame where
  "negativo_ej =
     cargar_datos
       \<lparr>columnas = columnas_csv,
        filas =
          [fila_ej 1 (2024, 1, 2) 1 ''ingreso'' (Num (- 500)) ''PEN'' ''BCP'',
           fila_ej 2 (2024, 1, 3) 1 ''ingreso'' (Num 100) ''PEN'' ''BBVA'']\<rparr>
       productos_ej"

text \<open>Two movements of equal amount; the counterparty that comes first in the table
  comes second in the alphabet.\<close>

definition empate_ej :: frame where
  "empate_ej =
     cargar_datos
       \<lparr>columnas = columnas_csv,
        filas =
          [fila_ej 1 (2024, 1, 2) 1 ''ingreso'' (Num 100) ''PEN'' ''Scotiabank'',
           fila_ej 2 (2024, 1, 3) 1 ''egreso'' (Num 100) ''PEN'' ''BBVA'']\<rparr>
       productos_ej"

text \<open>The three movements of the end-to-end example.\<close>

definition tres_ej :: frame where
  "tres_ej =
     cargar_datos
       \<lparr>columnas = columnas_csv,
        filas =
          [fila_ej 1 (2024, 1, 2) 1 ''ingreso'' (Num 100) ''PEN'' ''BCP'',
           fila_ej 2 (2024, 1, 2) 1 ''egreso'' (Num 40) ''PEN'' ''BBVA'',
           fila_ej 3 (2024, 1, 3) 2 ''ingreso'' (Num 50) ''USD'' ''BCP'']\<rparr>
       productos_ej"

text \<open>
  The catalogue of the generator script (accented letters as their UTF-8 bytes) and three
  configurations: a week of January 2024 with two records, the weekend of 6 and 7 January
  2024 (ordinals 738891 and 738892) with the script's 500 records, and the week again with
  no record. The draws of the sample are all one half.
\<close>

definition catalogo :: "(int \<times> string) list" where
  "catalogo =
     [(1, ''Dep'' @ [char_of (195::nat), char_of (179::nat)] @ ''sito a Plazo''),
      (2, ''Overnight''),
      (3, ''Cuenta Corriente''),
      (4, ''Repo''),
      (5, ''L'' @ [char_of (195::nat), char_of (173::nat)] @ ''nea de Cr'' @
          [char_of (195::nat), char_of (169::nat)] @ ''dito'')]"

definition config_semana :: config where
  "config_semana = \<lparr>fecha_inicio = 738886, fecha_fin = 738892, n_registros = 2, productos = catalogo\<rparr>"

definition config_fin_de_semana :: config where
  "config_fin_de_semana =
     \<lparr>fecha_inicio = 738891, fecha_fin = 738892, n_registros = 500, productos = catalogo\<rparr>"

definition config_sin_registros :: config where
  "config_sin_registros = \<lparr>fecha_inicio = 738886, fecha_fin = 738892, n_registros = 0, productos = catalogo\<rparr>"

definition azar_ej :: "nat \<Rightarrow> rat" where
  "azar_ej i = 1 / 2"

section \<open>Predicates of the statements\<close>

text \<open>A row whose operation type, as cleaning left it, is one of the two known ones.\<close>

definition conocida :: "fila \<Rightarrow> bool" where
  "conocida r \<longleftrightarrow> tipo_operacion r = Some ''ingreso'' \<or> tipo_operacion r = Some ''egreso''"

text \<open>What the script asks of the sort: the same rows, in descending order of the key.
  \<open>sort_values_desc_inv\<close> is another sort that does it; it reverses rows with equal
  keys.\<close>

definition ordena_desc ::
  "((contraparte_vol \<Rightarrow> rat) \<Rightarrow> contraparte_vol list \<Rightarrow> contraparte_vol list) \<Rightarrow> bool" where
  "ordena_desc ordena \<longleftrightarrow>
     (\<forall>f xs. mset (ordena f xs) = mset xs \<and> sorted_wrt (\<lambda>a b. f b \<le> f a) (ordena f xs))"

definition sort_values_desc_inv :: "('a \<Rightarrow> 'k::linorder) \<Rightarrow> 'a list \<Rightarrow> 'a list" where
  "sort_values_desc_inv f xs = rev (sort_key f xs)"

text \<open>The sum of the magnitudes of the amounts of some rows.\<close>

definition suma_magnitudes :: "fila list \<Rightarrow> rat" where
  "suma_magnitudes rs = sum_list (map (\<lambda>r. \<bar>valor (monto r)\<bar>) rs)"

text \<open>
  What holds of a counterparty view \<open>v\<close> of the rows \<open>rs\<close>: at most ten rows, no
  counterparty twice, every row a counterparty of the table with the sum of the amounts
  of its rows as volume, volumes in descending order, every counterparty that is left
  out no larger than any that is in, and volumes equal to the sums of magnitudes when no
  amount is negative.
\<close>

definition vista_top :: "fila list \<Rightarrow> contraparte_vol list \<Rightarrow> bool" where
  "vista_top rs v \<longleftrightarrow>
     length v \<le> 10 \<and> distinct (map tc_contraparte v) \<and>
     (\<forall>g\<in>set v.
        Some (tc_contraparte g) \<in> contraparte ` set rs \<and>
        tc_volumen_total g = suma_monto (filter (\<lambda>r. contraparte r = Some (tc_contraparte g)) rs)) \<and>
     sorted_wrt (\<lambda>a b. tc_volumen_total b \<le> tc_volumen_total a) v \<and>
     (\<forall>c. Some c \<in> contraparte ` set rs \<and> c \<notin> set (map tc_contraparte v) \<longrightarrow>
        length v = 10 \<and>
        (\<forall>g\<in>set v. suma_monto (filter (\<lambda>r. contraparte r = Some c) rs) \<le> tc_volumen_total g)) \<and>
     (list_all (\<lambda>r. 0 \<le> valor (monto r)) rs \<longrightarrow>
        (\<forall>g\<in>set v.
           tc_volumen_total g =
             suma_magnitudes (filter (\<lambda>r. contraparte r = Some (tc_contraparte g)) rs)))"


section \<open>Facts about cleaning\<close>

lemma filter_map_to_numeric:
  "filter (\<lambda>r. monto r \<noteq> Nulo) (map (\<lambda>r. r\<lparr>monto := to_numeric lee (monto r)\<rparr>) (filter criticas_presentes rs))
   = map (\<lambda>r. r\<lparr>monto := to_numeric lee (monto r)\<rparr>) (filter (sobrevive lee) rs)"
  by (induction rs) (auto simp: sobrevive_def)

lemma limpiar_datos_val:
  "limpiar_datos lee h r =
     (h @ [drop_duplicates (h ! r),
           con_columna ''fecha'' (\<lambda>r. r) (con_columna ''monto'' (\<lambda>r. r\<lparr>monto := to_numeric lee (monto r)\<rparr>)
              (dropna_criticas (drop_duplicates (h ! r)))),
           limpio lee (h ! r)],
      length h + 2,
      int (length (filas (h ! r))) - int (length (filas (limpio lee (h ! r)))))"
  apply (simp add: limpiar_datos_def nuevo_def asignar_columna_def Let_def nth_append)
  apply (simp add: limpio_def con_columna_def dropna_monto_def dropna_criticas_def drop_duplicates_def con_columnas_def normaliza_def Let_def filter_map_to_numeric)
  done

lemma lower_char_idem: "lower_char (lower_char c) = lower_char c"
  by (simp add: lower_char_def Let_def)

lemma upper_char_idem: "upper_char (upper_char c) = upper_char c"
  by (auto simp: upper_char_def Let_def)

lemma set_str_strip: "set (str_strip s) \<subseteq> set s"
  unfolding str_strip_def
  by (metis set_dropWhileD set_rev subsetI)

lemma last_dropWhile_aux: "dropWhile P xs \<noteq> [] \<Longrightarrow> last (dropWhile P xs) = last xs"
  by (induction xs) auto

lemma dropWhile_id: "xs = [] \<or> \<not> P (hd xs) \<Longrightarrow> dropWhile P xs = xs"
  by (cases xs) auto

lemma hd_dropWhile': "dropWhile P xs = [] \<or> \<not> P (hd (dropWhile P xs))"
  by (metis hd_dropWhile)

lemma str_strip_idem: "str_strip (str_strip s) = str_strip s"
proof -
  define u where "u = dropWhile espacio s"
  define v where "v = dropWhile espacio (rev u)"
  have t: "str_strip s = rev v" by (simp add: str_strip_def u_def v_def)
  have hv: "v = [] \<or> \<not> espacio (hd v)" unfolding v_def by (rule hd_dropWhile')
  have hu: "u = [] \<or> \<not> espacio (hd u)" unfolding u_def by (rule hd_dropWhile')
  have "rev v = [] \<or> \<not> espacio (hd (rev v))"
  proof (cases "v = []")
    case True then show ?thesis by simp
  next
    case False
    then have "last v = last (rev u)" unfolding v_def by (rule last_dropWhile_aux)
    moreover from False have "u \<noteq> []" unfolding v_def by auto
    ultimately have "hd (rev v) = hd u" using False by (simp add: hd_rev last_rev)
    with hu \<open>u \<noteq> []\<close> show ?thesis by simp
  qed
  then have 1: "dropWhile espacio (rev v) = rev v" by (rule dropWhile_id)
  have 2: "dropWhile espacio v = v" using hv by (rule dropWhile_id)
  show ?thesis unfolding t by (simp add: str_strip_def 1 2)
qed

lemma strip_lower_idem: "str_strip (str_lower (str_strip (str_lower s))) = str_strip (str_lower s)"
proof -
  have "\<forall>c \<in> set (str_strip (str_lower s)). lower_char c = c"
    using set_str_strip[of "str_lower s"] by (auto simp: str_lower_def lower_char_idem)
  then have "str_lower (str_strip (str_lower s)) = str_strip (str_lower s)"
    unfolding str_lower_def[of "str_strip _"] by (simp add: map_idI)
  then show ?thesis by (simp add: str_strip_idem)
qed

lemma strip_upper_idem: "str_strip (str_upper (str_strip (str_upper s))) = str_strip (str_upper s)"
proof -
  have "\<forall>c \<in> set (str_strip (str_upper s)). upper_char c = c"
    using set_str_strip[of "str_upper s"] by (auto simp: str_upper_def upper_char_idem)
  then have "str_upper (str_strip (str_upper s)) = str_strip (str_upper s)"
    unfolding str_upper_def[of "str_strip _"] by (simp add: map_idI)
  then show ?thesis by (simp add: str_strip_idem)
qed

lemma drop_duplicates_aux_ids:
  "distinct (map id_movimiento (drop_duplicates_aux vs rs)) \<and>
   set (map id_movimiento (drop_duplicates_aux vs rs)) \<inter> set vs = {}"
  by (induction vs rs rule: drop_duplicates_aux.induct) auto

lemma drop_duplicates_aux_id:
  "distinct (map id_movimiento rs) \<Longrightarrow> set (map id_movimiento rs) \<inter> set vs = {} \<Longrightarrow>
   drop_duplicates_aux vs rs = rs"
  by (induction vs rs rule: drop_duplicates_aux.induct) auto

lemma id_normaliza: "id_movimiento (normaliza lee r) = id_movimiento r"
  by (simp add: normaliza_def Let_def)

lemma sobrevive_normaliza: "sobrevive lee r \<Longrightarrow> sobrevive lee (normaliza lee r)"
  by (cases "monto r") (auto simp: sobrevive_def normaliza_def criticas_presentes_def Let_def split: option.splits)

lemma to_numeric_Num: "to_numeric lee c \<noteq> Nulo \<Longrightarrow> \<exists>x. to_numeric lee c = Num x"
  by (cases c) (auto split: option.splits)

lemma normaliza_idem:
  assumes "sobrevive lee r"
  shows "normaliza lee (normaliza lee r) = normaliza lee r"
proof -
  obtain x where x: "to_numeric lee (monto r) = Num x"
    using assms to_numeric_Num by (auto simp: sobrevive_def)
  obtain t where t: "tipo_operacion r = Some t"
    using assms by (auto simp: sobrevive_def criticas_presentes_def)
  obtain m where m: "moneda r = Some m"
    using assms by (auto simp: sobrevive_def criticas_presentes_def)
  show ?thesis
    by (simp add: normaliza_def Let_def con_signo_def x t m strip_lower_idem strip_upper_idem)
qed

lemma con_columnas_presentes: "set ns \<subseteq> set cs \<Longrightarrow> con_columnas cs ns = cs"
  unfolding con_columnas_def by (induction ns arbitrary: cs) auto

lemma set_con_columnas: "set (con_columnas cs ns) = set cs \<union> set ns"
  unfolding con_columnas_def by (induction ns arbitrary: cs) auto

lemma limpio_idem: "limpio lee (limpio lee f) = limpio lee f"
proof -
  let ?rs = "filas (limpio lee f)"
  have ids: "distinct (map id_movimiento ?rs)"
    using drop_duplicates_aux_ids[of "[]" "filas f"]
    by (simp add: limpio_def comp_def id_normaliza distinct_map_filter)
  have dd: "drop_duplicates_aux [] ?rs = ?rs"
    using ids by (intro drop_duplicates_aux_id) auto
  have sv: "\<forall>r \<in> set ?rs. sobrevive lee r"
    by (auto simp: limpio_def sobrevive_normaliza)
  have nn: "map (normaliza lee) ?rs = ?rs"
    by (auto simp: limpio_def normaliza_idem)
  have cols: "columnas (limpio lee (limpio lee f)) = columnas (limpio lee f)"
    by (simp add: limpio_def con_columnas_presentes set_con_columnas)
  have "filas (limpio lee (limpio lee f)) = map (normaliza lee) (filter (sobrevive lee) (drop_duplicates_aux [] ?rs))"
    by (simp add: limpio_def)
  also have "\<dots> = ?rs" using sv by (simp add: dd nn)
  finally show ?thesis using cols by simp
qed

section \<open>Facts about grouping and the per-group sums\<close>

lemma set_map_filter: "set (List.map_filter k rs) = {g. \<exists>r \<in> set rs. k r = Some g}"
  by (induction rs) (auto split: option.splits)

lemma set_claves: "set (claves k rs) = {g. \<exists>r \<in> set rs. k r = Some g}"
  by (simp add: claves_def set_map_filter)

lemma distinct_claves: "distinct (claves k rs)"
  by (simp add: claves_def)

lemma sorted_claves: "sorted (claves k rs)"
  by (simp add: claves_def)

lemma suma_grupos_aux:
  "finite G \<Longrightarrow>
   (\<Sum>g\<in>G. sum_list (map v (filter (\<lambda>r. k r = Some g) rs))) =
   sum_list (map v (filter (\<lambda>r. \<exists>g\<in>G. k r = Some g) rs))"
proof (induction rs)
  case Nil
  then show ?case by simp
next
  case (Cons r rs)
  show ?case
  proof (cases "\<exists>g\<in>G. k r = Some g")
    case True
    then obtain g0 where g0: "g0 \<in> G" "k r = Some g0" by blast
    have "(\<Sum>g\<in>G. sum_list (map v (filter (\<lambda>r. k r = Some g) (r # rs)))) =
          (\<Sum>g\<in>G. (if g = g0 then v r else 0) + sum_list (map v (filter (\<lambda>r. k r = Some g) rs)))"
      by (rule sum.cong) (auto simp: g0)
    also have "\<dots> = v r + (\<Sum>g\<in>G. sum_list (map v (filter (\<lambda>r. k r = Some g) rs)))"
      using Cons.prems g0 by (simp add: sum.distrib)
    finally show ?thesis using True Cons by simp
  next
    case False
    then have "(\<Sum>g\<in>G. sum_list (map v (filter (\<lambda>r. k r = Some g) (r # rs)))) =
          (\<Sum>g\<in>G. sum_list (map v (filter (\<lambda>r. k r = Some g) rs)))"
      by (intro sum.cong) auto
    then show ?thesis using False Cons by simp
  qed
qed

lemma suma_grupos:
  assumes "distinct gs"
  shows "sum_list (map (\<lambda>g. sum_list (map (v :: 'a \<Rightarrow> rat) (filter (\<lambda>r. k r = Some g) rs))) gs) =
         sum_list (map v (filter (\<lambda>r. \<exists>g\<in>set gs. k r = Some g) rs))"
  using suma_grupos_aux[of "set gs" v k rs] assms
  by (simp add: sum_list_distinct_conv_sum_set)

text \<open>Sum over the groups selected by Q of a per-group total restricted by P.\<close>
lemma suma_claves:
  "sum_list (map (\<lambda>g. sum_list (map (v :: fila \<Rightarrow> rat) (filter P (grupo k rs g)))) (filter Q (claves k rs))) =
   sum_list (map v (filter (\<lambda>r. P r \<and> (\<exists>g. k r = Some g \<and> Q g)) rs))"
proof -
  have d: "distinct (filter Q (claves k rs))" by (simp add: distinct_claves)
  have "sum_list (map (\<lambda>g. sum_list (map v (filter P (grupo k rs g)))) (filter Q (claves k rs))) =
        sum_list (map (\<lambda>g. sum_list (map v (filter (\<lambda>r. k r = Some g) (filter P rs)))) (filter Q (claves k rs)))"
    by (simp add: grupo_def conj_commute)
  also have "\<dots> = sum_list (map v (filter (\<lambda>r. \<exists>g\<in>set (filter Q (claves k rs)). k r = Some g) (filter P rs)))"
    by (rule suma_grupos[OF d])
  also have "\<dots> = sum_list (map v (filter (\<lambda>r. P r \<and> (\<exists>g. k r = Some g \<and> Q g)) rs))"
    by (auto simp: set_claves intro!: arg_cong[where f=sum_list] arg_cong[where f="map v"] filter_cong)
  finally show ?thesis .
qed

lemma par_Some: "par a b = Some g \<longleftrightarrow> a = Some (fst g) \<and> b = Some (snd g)"
  by (cases a; cases b; cases g) (auto simp: par_def)

lemma suma_tipo_claves:
  "sum_list (map (\<lambda>g. suma_tipo t (grupo k rs g)) (filter Q (claves k rs))) =
   suma_tipo t (filter (\<lambda>r. \<exists>g. k r = Some g \<and> Q g) rs)"
  unfolding suma_tipo_def suma_monto_def
  by (simp only: suma_claves filter_filter conj_commute)

lemma suma_neto_claves:
  "sum_list (map (\<lambda>g. suma_neto (grupo k rs g)) (filter Q (claves k rs))) =
   suma_neto (filter (\<lambda>r. \<exists>g. k r = Some g \<and> Q g) rs)"
proof -
  have "sum_list (map (\<lambda>g. suma_neto (grupo k rs g)) (filter Q (claves k rs))) =
        sum_list (map (\<lambda>g. sum_list (map (\<lambda>r. case monto_neto r of Some x \<Rightarrow> x | None \<Rightarrow> 0)
          (filter (\<lambda>r. True) (grupo k rs g)))) (filter Q (claves k rs)))"
    by (simp add: suma_neto_def)
  also have "\<dots> = suma_neto (filter (\<lambda>r. \<exists>g. k r = Some g \<and> Q g) rs)"
    by (simp only: suma_claves) (simp add: suma_neto_def)
  finally show ?thesis .
qed

lemma cumsum_moneda_map:
  assumes "\<And>g s. F (g\<lparr>fd_saldo_acumulado := s\<rparr>) = F g"
  shows "map F (cumsum_moneda acc xs) = map F xs"
  by (induction xs arbitrary: acc) (simp_all add: Let_def assms)

lemma agg_flujo_sel:
  "fd_fecha (agg_flujo rs g) = fst g"
  "fd_moneda (agg_flujo rs g) = snd g"
  "fd_total_ingresos (agg_flujo rs g) = suma_tipo ''ingreso'' (grupo clave_fd rs g)"
  "fd_total_egresos (agg_flujo rs g) = suma_tipo ''egreso'' (grupo clave_fd rs g)"
  "fd_flujo_neto (agg_flujo rs g) = suma_neto (grupo clave_fd rs g)"
  "fd_n_operaciones (agg_flujo rs g) = cuenta_id (grupo clave_fd rs g)"
  by (simp_all add: agg_flujo_def Let_def)

lemma flujo_diario_alt:
  "flujo_diario rs = cumsum_moneda (\<lambda>_. 0) (map (agg_flujo rs) (claves clave_fd rs))"
proof -
  have "map (\<lambda>g. (fd_fecha g, fd_moneda g)) (map (agg_flujo rs) (claves clave_fd rs)) = claves clave_fd rs"
    by (simp add: comp_def agg_flujo_sel)
  then have "sorted (map (\<lambda>g. (fd_fecha g, fd_moneda g)) (map (agg_flujo rs) (claves clave_fd rs)))"
    by (simp only: sorted_claves)
  then show ?thesis unfolding flujo_diario_def by (simp only: sort_key_id_if_sorted)
qed

lemma suma_vista_fd:
  assumes "\<And>g s. F (g\<lparr>fd_saldo_acumulado := s\<rparr>) = (F g :: rat)"
  shows "sum_list (map F (filter (\<lambda>g. fd_moneda g = c) (flujo_diario rs))) =
         sum_list (map (\<lambda>g. F (agg_flujo rs g)) (filter (\<lambda>g. snd g = c) (claves clave_fd rs)))"
proof -
  let ?G = "\<lambda>g. if fd_moneda g = c then F g else 0"
  have "sum_list (map F (filter (\<lambda>g. fd_moneda g = c) (flujo_diario rs))) =
        sum_list (map ?G (flujo_diario rs))"
    by (rule sum_list_map_filter')
  also have "map ?G (flujo_diario rs) = map ?G (map (agg_flujo rs) (claves clave_fd rs))"
    unfolding flujo_diario_alt by (rule cumsum_moneda_map) (simp add: assms)
  also have "sum_list \<dots> = sum_list (map (\<lambda>g. F (agg_flujo rs g)) (filter (\<lambda>g. snd g = c) (claves clave_fd rs)))"
    by (simp add: sum_list_map_filter' comp_def agg_flujo_sel)
  finally show ?thesis .
qed

lemma clave_fd_moneda:
  "(\<lambda>r. \<exists>g. clave_fd r = Some g \<and> snd g = c) = (\<lambda>r. moneda r = Some c \<and> fecha r \<noteq> None)"
  by (auto simp: fun_eq_iff clave_fd_def par_Some)

lemma fd_total_ingresos_moneda:
  "sum_list (map fd_total_ingresos (filter (\<lambda>g. fd_moneda g = c) (flujo_diario rs))) =
     suma_tipo ''ingreso'' (filter (\<lambda>r. moneda r = Some c \<and> fecha r \<noteq> None) rs)"
proof -
  have "sum_list (map fd_total_ingresos (filter (\<lambda>g. fd_moneda g = c) (flujo_diario rs))) =
        sum_list (map (\<lambda>g. suma_tipo ''ingreso'' (grupo clave_fd rs g))
          (filter (\<lambda>g. snd g = c) (claves clave_fd rs)))"
    by (simp add: suma_vista_fd agg_flujo_sel)
  then show ?thesis by (simp only: suma_tipo_claves clave_fd_moneda)
qed

lemma fd_total_egresos_moneda:
  "sum_list (map fd_total_egresos (filter (\<lambda>g. fd_moneda g = c) (flujo_diario rs))) =
     suma_tipo ''egreso'' (filter (\<lambda>r. moneda r = Some c \<and> fecha r \<noteq> None) rs)"
proof -
  have "sum_list (map fd_total_egresos (filter (\<lambda>g. fd_moneda g = c) (flujo_diario rs))) =
        sum_list (map (\<lambda>g. suma_tipo ''egreso'' (grupo clave_fd rs g))
          (filter (\<lambda>g. snd g = c) (claves clave_fd rs)))"
    by (simp add: suma_vista_fd agg_flujo_sel)
  then show ?thesis by (simp only: suma_tipo_claves clave_fd_moneda)
qed

lemma fd_flujo_neto_moneda:
  "sum_list (map fd_flujo_neto (filter (\<lambda>g. fd_moneda g = c) (flujo_diario rs))) =
     suma_neto (filter (\<lambda>r. moneda r = Some c \<and> fecha r \<noteq> None) rs)"
proof -
  have "sum_list (map fd_flujo_neto (filter (\<lambda>g. fd_moneda g = c) (flujo_diario rs))) =
        sum_list (map (\<lambda>g. suma_neto (grupo clave_fd rs g))
          (filter (\<lambda>g. snd g = c) (claves clave_fd rs)))"
    by (simp add: suma_vista_fd agg_flujo_sel)
  then show ?thesis by (simp only: suma_neto_claves clave_fd_moneda)
qed

section \<open>Facts about the running balance\<close>

lemma clave_le_fecha: "((a::fecha_t), (c::string)) \<le> (b, c') \<Longrightarrow> a \<le> b"
  by (auto simp: less_le)

lemma sorted_le_last: "sorted xs \<Longrightarrow> x \<in> set xs \<Longrightarrow> x \<le> last xs"
  by (induction xs) auto

lemma cumsum_moneda_claves:
  "map (\<lambda>g. (fd_fecha g, fd_moneda g)) (cumsum_moneda acc xs) = map (\<lambda>g. (fd_fecha g, fd_moneda g)) xs"
  by (rule cumsum_moneda_map) simp

lemma cumsum_saldo:
  assumes "sorted (map (\<lambda>g. (fd_fecha g, fd_moneda g)) xs)"
    and "distinct (map (\<lambda>g. (fd_fecha g, fd_moneda g)) xs)"
    and "g' \<in> set (cumsum_moneda acc xs)"
  shows "fd_saldo_acumulado g' =
     Some (acc (fd_moneda g') +
       sum_list (map fd_flujo_neto
         (filter (\<lambda>q. fd_moneda q = fd_moneda g' \<and> fd_fecha q \<le> fd_fecha g') xs)))"
  using assms
proof (induction xs arbitrary: acc)
  case Nil
  then show ?case by simp
next
  case (Cons x xs)
  let ?k = "\<lambda>g. (fd_fecha g, fd_moneda g)"
  let ?s = "acc (fd_moneda x) + fd_flujo_neto x"
  have le: "\<forall>q\<in>set xs. ?k x \<le> ?k q" using Cons.prems(1) by simp
  have ne: "\<forall>q\<in>set xs. ?k x \<noteq> ?k q" using Cons.prems(2) by auto
  from Cons.prems(3) consider
    (hd) "g' = x\<lparr>fd_saldo_acumulado := Some ?s\<rparr>"
    | (tl) "g' \<in> set (cumsum_moneda (acc(fd_moneda x := ?s)) xs)"
    by (auto simp: Let_def)
  then show ?case
  proof cases
    case hd
    have "filter (\<lambda>q. fd_moneda q = fd_moneda x \<and> fd_fecha q \<le> fd_fecha x) xs = []"
    proof (rule filter_False, rule ballI)
      fix q assume q: "q \<in> set xs"
      show "\<not> (fd_moneda q = fd_moneda x \<and> fd_fecha q \<le> fd_fecha x)"
      proof
        assume a: "fd_moneda q = fd_moneda x \<and> fd_fecha q \<le> fd_fecha x"
        from le q have "?k x \<le> ?k q" by blast
        then have "fd_fecha x \<le> fd_fecha q" by (rule clave_le_fecha)
        with a have "?k x = ?k q" by simp
        with ne q show False by blast
      qed
    qed
    with hd show ?thesis by simp
  next
    case tl
    have s: "sorted (map ?k xs)" and d: "distinct (map ?k xs)"
      using Cons.prems by simp_all
    note ih = Cons.IH[OF s d tl]
    from tl have "?k g' \<in> set (map ?k (cumsum_moneda (acc(fd_moneda x := ?s)) xs))"
      by auto
    then have "?k g' \<in> set (map ?k xs)" by (simp only: cumsum_moneda_claves)
    then obtain q where q: "q \<in> set xs" "?k q = ?k g'" by auto
    with le have "?k x \<le> ?k g'" by metis
    then have fx: "fd_fecha x \<le> fd_fecha g'" by (rule clave_le_fecha)
    show ?thesis
    proof (cases "fd_moneda x = fd_moneda g'")
      case True
      with ih fx show ?thesis by (simp add: add.assoc)
    next
      case False
      with ih show ?thesis by simp
    qed
  qed
qed

lemma claves_flujo_diario:
  "map (\<lambda>g. (fd_fecha g, fd_moneda g)) (flujo_diario rs) = claves clave_fd rs"
  unfolding flujo_diario_alt by (simp add: cumsum_moneda_claves comp_def agg_flujo_sel)

lemma flujo_neto_cumsum:
  "map (\<lambda>g. if P (fd_fecha g) (fd_moneda g) then fd_flujo_neto g else 0) (cumsum_moneda acc xs) =
   map (\<lambda>g. if P (fd_fecha g) (fd_moneda g) then fd_flujo_neto g else 0) xs"
  by (rule cumsum_moneda_map) simp

lemma saldo_flujo_diario:
  assumes "g \<in> set (flujo_diario rs)"
  shows "fd_saldo_acumulado g =
     Some (sum_list (map fd_flujo_neto
       (filter (\<lambda>q. fd_moneda q = fd_moneda g \<and> fd_fecha q \<le> fd_fecha g) (flujo_diario rs))))"
proof -
  let ?xs = "map (agg_flujo rs) (claves clave_fd rs)"
  let ?k = "\<lambda>g. (fd_fecha g, fd_moneda g)"
  have k: "map ?k ?xs = claves clave_fd rs" by (simp add: comp_def agg_flujo_sel)
  have s: "sorted (map ?k ?xs)" by (simp only: k sorted_claves)
  have d: "distinct (map ?k ?xs)" by (simp only: k distinct_claves)
  from assms have g: "g \<in> set (cumsum_moneda (\<lambda>_. 0) ?xs)" by (simp only: flujo_diario_alt)
  have "sum_list (map fd_flujo_neto (filter (\<lambda>q. fd_moneda q = fd_moneda g \<and> fd_fecha q \<le> fd_fecha g) (flujo_diario rs))) =
        sum_list (map fd_flujo_neto (filter (\<lambda>q. fd_moneda q = fd_moneda g \<and> fd_fecha q \<le> fd_fecha g) ?xs))"
    unfolding flujo_diario_alt sum_list_map_filter'
    by (rule arg_cong[where f=sum_list])
       (rule flujo_neto_cumsum[where P="\<lambda>d m. m = fd_moneda g \<and> d \<le> fd_fecha g"])
  with cumsum_saldo[OF s d g] show ?thesis by simp
qed

lemma saldo_final:
  assumes "filter (\<lambda>g. fd_moneda g = c) (flujo_diario rs) \<noteq> []"
  shows "fd_saldo_acumulado (last (filter (\<lambda>g. fd_moneda g = c) (flujo_diario rs))) =
     Some (sum_list (map fd_flujo_neto (filter (\<lambda>g. fd_moneda g = c) (flujo_diario rs))))"
proof -
  let ?fd = "flujo_diario rs"
  let ?fc = "filter (\<lambda>g. fd_moneda g = c) ?fd"
  let ?k = "\<lambda>g. (fd_fecha g, fd_moneda g)"
  have l: "last ?fc \<in> set ?fc" using assms by (rule last_in_set)
  then have lfd: "last ?fc \<in> set ?fd" and lc: "fd_moneda (last ?fc) = c" by simp_all
  have "sorted (map ?k ?fd)" by (simp only: claves_flujo_diario sorted_claves)
  then have sc: "sorted (map ?k ?fc)" by (simp add: sorted_map sorted_wrt_filter)
  have "\<forall>q\<in>set ?fd. fd_moneda q = c \<longrightarrow> fd_fecha q \<le> fd_fecha (last ?fc)"
  proof (intro ballI impI)
    fix q assume "q \<in> set ?fd" "fd_moneda q = c"
    then have "?k q \<in> set (map ?k ?fc)" by auto
    with sc have "?k q \<le> last (map ?k ?fc)" by (rule sorted_le_last)
    then have "?k q \<le> ?k (last ?fc)" using assms by (simp add: last_map)
    then show "fd_fecha q \<le> fd_fecha (last ?fc)" by (rule clave_le_fecha)
  qed
  then have "filter (\<lambda>q. fd_moneda q = fd_moneda (last ?fc) \<and> fd_fecha q \<le> fd_fecha (last ?fc)) ?fd = ?fc"
    unfolding lc by (intro filter_cong) auto
  with saldo_flujo_diario[OF lfd] show ?thesis by simp
qed

section \<open>Cleaning followed by aggregation\<close>

lemma filas_limpio:
  assumes "r \<in> set (filas (limpio lee f))"
  shows "fecha r \<noteq> None" and "moneda r \<noteq> None" and "tipo_operacion r \<noteq> None"
    and "\<exists>x. monto r = Num x \<and> monto_neto r = Some (if tipo_operacion r = Some ''ingreso'' then x else - x)"
proof -
  from assms obtain r0 where r0: "sobrevive lee r0" "r = normaliza lee r0"
    by (auto simp: limpio_def)
  then obtain x where x: "to_numeric lee (monto r0) = Num x"
    using to_numeric_Num by (auto simp: sobrevive_def)
  from r0 show "fecha r \<noteq> None" "moneda r \<noteq> None" "tipo_operacion r \<noteq> None"
    by (auto simp: sobrevive_def criticas_presentes_def normaliza_def Let_def)
  from r0 x show "\<exists>x. monto r = Num x \<and> monto_neto r = Some (if tipo_operacion r = Some ''ingreso'' then x else - x)"
    by (simp add: normaliza_def Let_def con_signo_def)
qed

lemma filter_moneda_limpio:
  "filter (\<lambda>r. moneda r = Some c \<and> fecha r \<noteq> None) (filas (limpio lee f)) =
   filter (\<lambda>r. moneda r = Some c) (filas (limpio lee f))"
  by (rule filter_cong) (auto dest: filas_limpio(1))

lemma calcular_kpis_val:
  assumes "df < length h"
  shows "calcular_kpis h df =
     (h[df := con_columna ''mes'' (\<lambda>r. r\<lparr>mes := Some (str_mes (fecha r))\<rparr>) (h ! df)],
      flujo_diario (filas (h ! df)), por_producto (filas (h ! df)),
      top_contrapartes (filas (h ! df)), alertas_de (flujo_diario (filas (h ! df))),
      resumen_mensual (map (\<lambda>r. r\<lparr>mes := Some (str_mes (fecha r))\<rparr>) (filas (h ! df))))"
  using assms by (simp add: calcular_kpis_def asignar_columna_def Let_def con_columna_def)

lemma pipeline_val:
  assumes "limpiar_datos lee h df = (h1, df1, n)"
  shows "h1 ! df1 = limpio lee (h ! df)"
    and "calcular_kpis h1 df1 =
     (h1[df1 := con_columna ''mes'' (\<lambda>r. r\<lparr>mes := Some (str_mes (fecha r))\<rparr>) (limpio lee (h ! df))],
      flujo_diario (filas (limpio lee (h ! df))), por_producto (filas (limpio lee (h ! df))),
      top_contrapartes (filas (limpio lee (h ! df))),
      alertas_de (flujo_diario (filas (limpio lee (h ! df)))),
      resumen_mensual (map (\<lambda>r. r\<lparr>mes := Some (str_mes (fecha r))\<rparr>) (filas (limpio lee (h ! df)))))"
proof -
  from assms have h1: "h1 = h @ [drop_duplicates (h ! df),
           con_columna ''fecha'' (\<lambda>r. r) (con_columna ''monto'' (\<lambda>r. r\<lparr>monto := to_numeric lee (monto r)\<rparr>)
              (dropna_criticas (drop_duplicates (h ! df)))),
           limpio lee (h ! df)]" and df1: "df1 = length h + 2"
    by (simp_all add: limpiar_datos_val)
  show v: "h1 ! df1 = limpio lee (h ! df)" by (simp add: h1 df1 nth_append)
  have "df1 < length h1" by (simp add: h1 df1)
  from calcular_kpis_val[OF this] show "calcular_kpis h1 df1 =
     (h1[df1 := con_columna ''mes'' (\<lambda>r. r\<lparr>mes := Some (str_mes (fecha r))\<rparr>) (limpio lee (h ! df))],
      flujo_diario (filas (limpio lee (h ! df))), por_producto (filas (limpio lee (h ! df))),
      top_contrapartes (filas (limpio lee (h ! df))),
      alertas_de (flujo_diario (filas (limpio lee (h ! df)))),
      resumen_mensual (map (\<lambda>r. r\<lparr>mes := Some (str_mes (fecha r))\<rparr>) (filas (limpio lee (h ! df)))))"
    by (simp only: v)
qed


section \<open>The running balance with exact sums\<close>

text \<open>
  With exact sums, for every cleaned table and every currency: the daily net flows of the
  currency add up to the signed amounts of the cleaned movements in that currency, the
  running balance of every daily row is the sum of the net flows of its currency over
  the dates up to its own, and the running balance of the last daily row of a currency
  is the total of the signed amounts in that currency. The program takes these sums in
  floating point, each in its own order, and this says nothing about whether its
  rounded totals coincide.
\<close>

lemma saldo_acumulado_exacto:
  "case limpiar_datos lee h df of (h1, df1, n) \<Rightarrow>
     (case calcular_kpis h1 df1 of (h2, fd, pp, tc, al, rm) \<Rightarrow>
        sum_list (map fd_flujo_neto (filter (\<lambda>g. fd_moneda g = c) fd)) =
          suma_neto (filter (\<lambda>r. moneda r = Some c) (filas (h1 ! df1))) \<and>
        (\<forall>g\<in>set fd. fd_saldo_acumulado g =
           Some (sum_list (map fd_flujo_neto
             (filter (\<lambda>q. fd_moneda q = fd_moneda g \<and> fd_fecha q \<le> fd_fecha g) fd)))) \<and>
        (filter (\<lambda>g. fd_moneda g = c) fd \<noteq> [] \<longrightarrow>
           fd_saldo_acumulado (last (filter (\<lambda>g. fd_moneda g = c) fd)) =
             Some (suma_neto (filter (\<lambda>r. moneda r = Some c) (filas (h1 ! df1))))))"
proof -
  let ?rs = "filas (limpio lee (h ! df))"
  obtain h1 df1 n where L: "limpiar_datos lee h df = (h1, df1, n)"
    by (cases "limpiar_datos lee h df") auto
  note P = pipeline_val[OF L]
  have a: "sum_list (map fd_flujo_neto (filter (\<lambda>g. fd_moneda g = c) (flujo_diario ?rs))) =
        suma_neto (filter (\<lambda>r. moneda r = Some c) ?rs)"
    by (simp only: fd_flujo_neto_moneda filter_moneda_limpio)
  have b: "\<forall>g\<in>set (flujo_diario ?rs). fd_saldo_acumulado g =
           Some (sum_list (map fd_flujo_neto
             (filter (\<lambda>q. fd_moneda q = fd_moneda g \<and> fd_fecha q \<le> fd_fecha g) (flujo_diario ?rs))))"
    by (rule ballI) (rule saldo_flujo_diario)
  have c: "filter (\<lambda>g. fd_moneda g = c) (flujo_diario ?rs) \<noteq> [] \<longrightarrow>
           fd_saldo_acumulado (last (filter (\<lambda>g. fd_moneda g = c) (flujo_diario ?rs))) =
             Some (suma_neto (filter (\<lambda>r. moneda r = Some c) ?rs))"
    using saldo_final[of c ?rs] a by simp
  show ?thesis
    using a b c by (simp only: L P split_conv)
qed

section \<open>Facts about the rows of the views\<close>

lemma set_sort_values_desc: "set (sort_values_desc f xs) = set xs"
  by (simp add: sort_values_desc_def)

lemma mset_sort_values_desc: "mset (sort_values_desc f xs) = mset xs"
  by (simp add: sort_values_desc_def)

lemma fd_campos:
  assumes "g \<in> set (flujo_diario rs)"
  shows "(fd_fecha g, fd_moneda g) \<in> set (claves clave_fd rs)"
    and "fd_total_ingresos g = suma_tipo ''ingreso'' (grupo clave_fd rs (fd_fecha g, fd_moneda g))"
    and "fd_total_egresos g = suma_tipo ''egreso'' (grupo clave_fd rs (fd_fecha g, fd_moneda g))"
    and "fd_flujo_neto g = suma_neto (grupo clave_fd rs (fd_fecha g, fd_moneda g))"
    and "fd_n_operaciones g = cuenta_id (grupo clave_fd rs (fd_fecha g, fd_moneda g))"
proof -
  let ?F = "\<lambda>g. (fd_fecha g, fd_moneda g, fd_total_ingresos g, fd_total_egresos g, fd_flujo_neto g, fd_n_operaciones g)"
  have "map ?F (flujo_diario rs) = map ?F (map (agg_flujo rs) (claves clave_fd rs))"
    unfolding flujo_diario_alt by (rule cumsum_moneda_map) simp
  moreover from assms have "?F g \<in> set (map ?F (flujo_diario rs))" by auto
  ultimately have "?F g \<in> set (map ?F (map (agg_flujo rs) (claves clave_fd rs)))" by simp
  then obtain k where k: "k \<in> set (claves clave_fd rs)" "?F g = ?F (agg_flujo rs k)" by auto
  then have "(fd_fecha g, fd_moneda g) = k" by (simp add: agg_flujo_sel)
  with k show "(fd_fecha g, fd_moneda g) \<in> set (claves clave_fd rs)"
    and "fd_total_ingresos g = suma_tipo ''ingreso'' (grupo clave_fd rs (fd_fecha g, fd_moneda g))"
    and "fd_total_egresos g = suma_tipo ''egreso'' (grupo clave_fd rs (fd_fecha g, fd_moneda g))"
    and "fd_flujo_neto g = suma_neto (grupo clave_fd rs (fd_fecha g, fd_moneda g))"
    and "fd_n_operaciones g = cuenta_id (grupo clave_fd rs (fd_fecha g, fd_moneda g))"
    by (auto simp: agg_flujo_sel)
qed

lemma agg_producto_sel:
  "pp_nombre_producto (agg_producto rs g) = fst g"
  "pp_moneda (agg_producto rs g) = snd g"
  "pp_total_ingresos (agg_producto rs g) = suma_tipo ''ingreso'' (grupo clave_pp rs g)"
  "pp_total_egresos (agg_producto rs g) = suma_tipo ''egreso'' (grupo clave_pp rs g)"
  "pp_n_operaciones (agg_producto rs g) = cuenta_id (grupo clave_pp rs g)"
  by (simp_all add: agg_producto_def Let_def)

lemma pp_campos:
  assumes "g \<in> set (por_producto rs)"
  shows "(pp_nombre_producto g, pp_moneda g) \<in> set (claves clave_pp rs)"
    and "pp_total_ingresos g = suma_tipo ''ingreso'' (grupo clave_pp rs (pp_nombre_producto g, pp_moneda g))"
    and "pp_total_egresos g = suma_tipo ''egreso'' (grupo clave_pp rs (pp_nombre_producto g, pp_moneda g))"
proof -
  from assms obtain k where k: "k \<in> set (claves clave_pp rs)"
    "g = (agg_producto rs k)\<lparr>pp_monto_promedio := map_option round2 (pp_monto_promedio (agg_producto rs k))\<rparr>"
    by (auto simp: por_producto_def set_sort_values_desc)
  then show "(pp_nombre_producto g, pp_moneda g) \<in> set (claves clave_pp rs)"
    and "pp_total_ingresos g = suma_tipo ''ingreso'' (grupo clave_pp rs (pp_nombre_producto g, pp_moneda g))"
    and "pp_total_egresos g = suma_tipo ''egreso'' (grupo clave_pp rs (pp_nombre_producto g, pp_moneda g))"
    by (simp_all add: agg_producto_sel)
qed

lemma agg_mensual_sel:
  "rm_mes (agg_mensual rs g) = fst g"
  "rm_moneda (agg_mensual rs g) = snd g"
  "rm_total_ingresos (agg_mensual rs g) = suma_tipo ''ingreso'' (grupo clave_rm rs g)"
  "rm_total_egresos (agg_mensual rs g) = suma_tipo ''egreso'' (grupo clave_rm rs g)"
  "rm_flujo_neto (agg_mensual rs g) = suma_neto (grupo clave_rm rs g)"
  by (simp_all add: agg_mensual_def Let_def)

lemma rm_campos:
  assumes "g \<in> set (resumen_mensual rs)"
  shows "(rm_mes g, rm_moneda g) \<in> set (claves clave_rm rs)"
    and "rm_total_ingresos g = suma_tipo ''ingreso'' (grupo clave_rm rs (rm_mes g, rm_moneda g))"
    and "rm_total_egresos g = suma_tipo ''egreso'' (grupo clave_rm rs (rm_mes g, rm_moneda g))"
    and "rm_flujo_neto g = suma_neto (grupo clave_rm rs (rm_mes g, rm_moneda g))"
proof -
  from assms obtain k where k: "k \<in> set (claves clave_rm rs)" "g = agg_mensual rs k"
    by (auto simp: resumen_mensual_def)
  then show "(rm_mes g, rm_moneda g) \<in> set (claves clave_rm rs)"
    and "rm_total_ingresos g = suma_tipo ''ingreso'' (grupo clave_rm rs (rm_mes g, rm_moneda g))"
    and "rm_total_egresos g = suma_tipo ''egreso'' (grupo clave_rm rs (rm_mes g, rm_moneda g))"
    and "rm_flujo_neto g = suma_neto (grupo clave_rm rs (rm_mes g, rm_moneda g))"
    by (simp_all add: agg_mensual_sel)
qed

lemma suma_tipo_conocidas:
  assumes "t = ''ingreso'' \<or> t = ''egreso''"
  shows "suma_tipo t (grupo k (filter conocida rs) g) = suma_tipo t (grupo k rs g)"
proof -
  have "filter (\<lambda>r. tipo_operacion r = Some t) (filter (\<lambda>r. k r = Some g) (filter conocida rs)) =
        filter (\<lambda>r. tipo_operacion r = Some t) (filter (\<lambda>r. k r = Some g) rs)"
    using assms by (induction rs) (auto simp: conocida_def)
  then show ?thesis by (simp add: suma_tipo_def grupo_def)
qed

lemma alertas_mset:
  "mset (map (\<lambda>a. (al_fecha a, al_flujo_neto a, al_saldo_acumulado a)) (alertas_de fd)) =
   mset (map (\<lambda>g. (fd_fecha g, fd_flujo_neto g, fd_saldo_acumulado g))
     (filter (\<lambda>g. fd_moneda g = ''PEN'' \<and> fd_flujo_neto g < 0) fd))"
  by (simp add: alertas_de_def Let_def multiset.map_comp comp_def conj_commute)

lemma alertas_sorted: "sorted (map al_flujo_neto (alertas_de fd))"
  by (simp add: alertas_de_def Let_def)

lemma alertas_estado: "a \<in> set (alertas_de fd) \<Longrightarrow> al_estado a = estado_alerta"
  by (auto simp: alertas_de_def Let_def)

section \<open>Per-currency totals of the product and monthly views\<close>

lemma suma_lista_sort_values_desc:
  "sum_list (map (F :: 'a \<Rightarrow> rat) (sort_values_desc f xs)) = sum_list (map F xs)"
proof -
  have "mset (map F (sort_values_desc f xs)) = mset (map F xs)"
    by (simp add: mset_sort_values_desc)
  then have "sum_mset (mset (map F (sort_values_desc f xs))) = sum_mset (mset (map F xs))"
    by (rule arg_cong)
  then show ?thesis by (simp only: sum_mset_sum_list)
qed

lemma clave_pp_moneda:
  "(\<lambda>r. \<exists>g. clave_pp r = Some g \<and> snd g = c) = (\<lambda>r. moneda r = Some c \<and> nombre_producto r \<noteq> None)"
  by (auto simp: fun_eq_iff clave_pp_def par_Some)

lemma clave_rm_moneda:
  "(\<lambda>r. \<exists>g. clave_rm r = Some g \<and> snd g = c) = (\<lambda>r. moneda r = Some c \<and> mes r \<noteq> None)"
  by (auto simp: fun_eq_iff clave_rm_def par_Some)

lemma suma_vista_pp:
  assumes "\<And>g s. F (g\<lparr>pp_monto_promedio := s\<rparr>) = (F g :: rat)"
  shows "sum_list (map F (filter (\<lambda>g. pp_moneda g = c) (por_producto rs))) =
         sum_list (map (\<lambda>g. F (agg_producto rs g)) (filter (\<lambda>g. snd g = c) (claves clave_pp rs)))"
proof -
  let ?G = "\<lambda>g. if pp_moneda g = c then F g else 0"
  let ?u = "\<lambda>p. p\<lparr>pp_monto_promedio := map_option round2 (pp_monto_promedio p)\<rparr>"
  have "sum_list (map F (filter (\<lambda>g. pp_moneda g = c) (por_producto rs))) =
        sum_list (map ?G (por_producto rs))"
    by (rule sum_list_map_filter')
  also have "\<dots> = sum_list (map (\<lambda>g. ?G (?u g)) (sort_values_desc pp_total_ingresos (map (agg_producto rs) (claves clave_pp rs))))"
    by (simp add: por_producto_def comp_def)
  also have "\<dots> = sum_list (map (\<lambda>g. ?G (?u g)) (map (agg_producto rs) (claves clave_pp rs)))"
    by (rule suma_lista_sort_values_desc)
  also have "\<dots> = sum_list (map (\<lambda>g. F (agg_producto rs g)) (filter (\<lambda>g. snd g = c) (claves clave_pp rs)))"
    by (simp add: sum_list_map_filter' comp_def agg_producto_sel assms cong: if_cong)
  finally show ?thesis .
qed

lemma pp_total_ingresos_moneda:
  "sum_list (map pp_total_ingresos (filter (\<lambda>g. pp_moneda g = c) (por_producto rs))) =
     suma_tipo ''ingreso'' (filter (\<lambda>r. moneda r = Some c \<and> nombre_producto r \<noteq> None) rs)"
proof -
  have "sum_list (map pp_total_ingresos (filter (\<lambda>g. pp_moneda g = c) (por_producto rs))) =
        sum_list (map (\<lambda>g. suma_tipo ''ingreso'' (grupo clave_pp rs g))
          (filter (\<lambda>g. snd g = c) (claves clave_pp rs)))"
    by (simp add: suma_vista_pp agg_producto_sel)
  then show ?thesis by (simp only: suma_tipo_claves clave_pp_moneda)
qed

lemma pp_total_egresos_moneda:
  "sum_list (map pp_total_egresos (filter (\<lambda>g. pp_moneda g = c) (por_producto rs))) =
     suma_tipo ''egreso'' (filter (\<lambda>r. moneda r = Some c \<and> nombre_producto r \<noteq> None) rs)"
proof -
  have "sum_list (map pp_total_egresos (filter (\<lambda>g. pp_moneda g = c) (por_producto rs))) =
        sum_list (map (\<lambda>g. suma_tipo ''egreso'' (grupo clave_pp rs g))
          (filter (\<lambda>g. snd g = c) (claves clave_pp rs)))"
    by (simp add: suma_vista_pp agg_producto_sel)
  then show ?thesis by (simp only: suma_tipo_claves clave_pp_moneda)
qed

lemma suma_vista_rm:
  "sum_list (map (F :: mensual \<Rightarrow> rat) (filter (\<lambda>g. rm_moneda g = c) (resumen_mensual rs))) =
   sum_list (map (\<lambda>g. F (agg_mensual rs g)) (filter (\<lambda>g. snd g = c) (claves clave_rm rs)))"
  by (simp add: resumen_mensual_def filter_map comp_def agg_mensual_sel)

lemma rm_total_ingresos_moneda:
  "sum_list (map rm_total_ingresos (filter (\<lambda>g. rm_moneda g = c) (resumen_mensual rs))) =
     suma_tipo ''ingreso'' (filter (\<lambda>r. moneda r = Some c \<and> mes r \<noteq> None) rs)"
proof -
  have "sum_list (map rm_total_ingresos (filter (\<lambda>g. rm_moneda g = c) (resumen_mensual rs))) =
        sum_list (map (\<lambda>g. suma_tipo ''ingreso'' (grupo clave_rm rs g))
          (filter (\<lambda>g. snd g = c) (claves clave_rm rs)))"
    by (simp add: suma_vista_rm agg_mensual_sel)
  then show ?thesis by (simp only: suma_tipo_claves clave_rm_moneda)
qed

lemma rm_total_egresos_moneda:
  "sum_list (map rm_total_egresos (filter (\<lambda>g. rm_moneda g = c) (resumen_mensual rs))) =
     suma_tipo ''egreso'' (filter (\<lambda>r. moneda r = Some c \<and> mes r \<noteq> None) rs)"
proof -
  have "sum_list (map rm_total_egresos (filter (\<lambda>g. rm_moneda g = c) (resumen_mensual rs))) =
        sum_list (map (\<lambda>g. suma_tipo ''egreso'' (grupo clave_rm rs g))
          (filter (\<lambda>g. snd g = c) (claves clave_rm rs)))"
    by (simp add: suma_vista_rm agg_mensual_sel)
  then show ?thesis by (simp only: suma_tipo_claves clave_rm_moneda)
qed

lemma suma_tipo_con_mes:
  "suma_tipo t (filter (\<lambda>r. moneda r = Some c \<and> mes r \<noteq> None)
     (map (\<lambda>r. r\<lparr>mes := Some (str_mes (fecha r))\<rparr>) rs)) =
   suma_tipo t (filter (\<lambda>r. moneda r = Some c) rs)"
  by (induction rs) (auto simp: suma_tipo_def suma_monto_def)

text \<open>
  What reconciles and what does not, for every cleaned table and every currency: the
  income and expense totals of the daily and of the monthly view add up to the totals of
  the cleaned movements; those of the product view add up to the totals of the cleaned
  movements that have a product name.
\<close>

lemma conciliacion_vistas:
  "case limpiar_datos lee h df of (h1, df1, n) \<Rightarrow>
     (case calcular_kpis h1 df1 of (h2, fd, pp, tc, al, rm) \<Rightarrow>
        sum_list (map fd_total_ingresos (filter (\<lambda>g. fd_moneda g = c) fd)) =
          suma_tipo ''ingreso'' (filter (\<lambda>r. moneda r = Some c) (filas (h1 ! df1))) \<and>
        sum_list (map fd_total_egresos (filter (\<lambda>g. fd_moneda g = c) fd)) =
          suma_tipo ''egreso'' (filter (\<lambda>r. moneda r = Some c) (filas (h1 ! df1))) \<and>
        sum_list (map rm_total_ingresos (filter (\<lambda>g. rm_moneda g = c) rm)) =
          suma_tipo ''ingreso'' (filter (\<lambda>r. moneda r = Some c) (filas (h1 ! df1))) \<and>
        sum_list (map rm_total_egresos (filter (\<lambda>g. rm_moneda g = c) rm)) =
          suma_tipo ''egreso'' (filter (\<lambda>r. moneda r = Some c) (filas (h1 ! df1))) \<and>
        sum_list (map pp_total_ingresos (filter (\<lambda>g. pp_moneda g = c) pp)) =
          suma_tipo ''ingreso''
            (filter (\<lambda>r. moneda r = Some c \<and> nombre_producto r \<noteq> None) (filas (h1 ! df1))) \<and>
        sum_list (map pp_total_egresos (filter (\<lambda>g. pp_moneda g = c) pp)) =
          suma_tipo ''egreso''
            (filter (\<lambda>r. moneda r = Some c \<and> nombre_producto r \<noteq> None) (filas (h1 ! df1))))"
proof -
  obtain h1 df1 n where L: "limpiar_datos lee h df = (h1, df1, n)"
    by (cases "limpiar_datos lee h df") auto
  note P = pipeline_val[OF L]
  show ?thesis
    by (simp only: L P split_conv fd_total_ingresos_moneda fd_total_egresos_moneda
        rm_total_ingresos_moneda rm_total_egresos_moneda pp_total_ingresos_moneda
        pp_total_egresos_moneda suma_tipo_con_mes filter_moneda_limpio simp_thms)
qed

section \<open>Facts about the counterparty view\<close>

lemma ordena_desc_sort_values_desc: "ordena_desc sort_values_desc"
proof -
  have "sorted_wrt (\<lambda>a b. f b \<le> f a) (sort_values_desc f xs)"
    for f :: "contraparte_vol \<Rightarrow> rat" and xs
  proof -
    have "sorted (map f (sort_key f (rev xs)))" by simp
    then have "sorted_wrt (\<lambda>a b. f a \<le> f b) (sort_key f (rev xs))"
      by (simp only: sorted_wrt_map)
    then show ?thesis by (simp add: sort_values_desc_def sorted_wrt_rev)
  qed
  then show ?thesis by (simp add: ordena_desc_def mset_sort_values_desc)
qed

lemma ordena_desc_sort_values_desc_inv: "ordena_desc sort_values_desc_inv"
proof -
  have "sorted_wrt (\<lambda>a b. f b \<le> f a) (sort_values_desc_inv f xs)"
    for f :: "contraparte_vol \<Rightarrow> rat" and xs
  proof -
    have "sorted (map f (sort_key f xs))" by simp
    then have "sorted_wrt (\<lambda>a b. f a \<le> f b) (sort_key f xs)"
      by (simp only: sorted_wrt_map)
    then show ?thesis by (simp add: sort_values_desc_inv_def sorted_wrt_rev)
  qed
  then show ?thesis by (simp add: ordena_desc_def sort_values_desc_inv_def)
qed

lemma agg_contraparte_sel:
  "tc_contraparte (agg_contraparte rs g) = g"
  "tc_n_operaciones (agg_contraparte rs g) = cuenta_id (grupo contraparte rs g)"
  "tc_volumen_total (agg_contraparte rs g) = suma_monto (grupo contraparte rs g)"
  by (simp_all add: agg_contraparte_def Let_def)

lemma suma_monto_magnitudes:
  "list_all (\<lambda>r. 0 \<le> valor (monto r)) rs \<Longrightarrow> suma_monto (filter P rs) = suma_magnitudes (filter P rs)"
  by (induction rs) (auto simp: suma_monto_def suma_magnitudes_def)

lemma vista_top_con:
  assumes "ordena_desc ordena"
  shows "vista_top rs (top_contrapartes_con ordena rs)"
proof -
  let ?xs = "map (agg_contraparte rs) (claves contraparte rs)"
  let ?S = "ordena tc_volumen_total ?xs"
  let ?u = "\<lambda>p. p\<lparr>tc_monto_promedio := map_option round2 (tc_monto_promedio p)\<rparr>"
  let ?v = "top_contrapartes_con ordena rs"
  from assms have m: "mset ?S = mset ?xs"
    and s: "sorted_wrt (\<lambda>a b. tc_volumen_total b \<le> tc_volumen_total a) ?S"
    by (simp_all add: ordena_desc_def)
  from m have set_S: "set ?S = set ?xs" by (rule mset_eq_setD)
  have v: "?v = map ?u (take 10 ?S)" by (simp add: top_contrapartes_con_def)
  have nom: "map tc_contraparte ?v = take 10 (map tc_contraparte ?S)"
    by (simp add: v comp_def take_map)
  have vol: "map tc_volumen_total ?v = take 10 (map tc_volumen_total ?S)"
    by (simp add: v comp_def take_map)
  have len: "length ?v \<le> 10" by (simp add: v)
  have dist: "distinct (map tc_contraparte ?v)"
  proof -
    have "map tc_contraparte ?xs = claves contraparte rs"
      by (simp add: comp_def agg_contraparte_sel)
    then have "distinct (map tc_contraparte ?xs)" by (simp only: distinct_claves)
    moreover have "mset (map tc_contraparte ?S) = mset (map tc_contraparte ?xs)"
      by (simp only: mset_map m)
    ultimately have "distinct (map tc_contraparte ?S)"
      by (metis mset_eq_imp_distinct_iff)
    then show ?thesis unfolding nom by (rule distinct_take)
  qed
  have campos: "Some (tc_contraparte g) \<in> contraparte ` set rs \<and>
        tc_volumen_total g = suma_monto (filter (\<lambda>r. contraparte r = Some (tc_contraparte g)) rs)"
    if "g \<in> set ?v" for g
  proof -
    from that obtain a where a: "a \<in> set (take 10 ?S)" "g = ?u a" by (auto simp: v)
    then have "a \<in> set ?xs" using set_S by (auto dest: in_set_takeD)
    then obtain k where k: "k \<in> set (claves contraparte rs)" "a = agg_contraparte rs k" by auto
    from k(1) have "Some k \<in> contraparte ` set rs" by (force simp: set_claves)
    with a k show ?thesis by (simp add: agg_contraparte_sel grupo_def)
  qed
  have ord: "sorted_wrt (\<lambda>a b. tc_volumen_total b \<le> tc_volumen_total a) ?v"
  proof -
    have "sorted_wrt (\<lambda>a b. tc_volumen_total b \<le> tc_volumen_total a) (take 10 ?S)"
      using s by (rule sorted_wrt_take)
    then show ?thesis by (simp add: v sorted_wrt_map)
  qed
  have fuera: "length ?v = 10 \<and>
        (\<forall>g\<in>set ?v. suma_monto (filter (\<lambda>r. contraparte r = Some c) rs) \<le> tc_volumen_total g)"
    if c: "Some c \<in> contraparte ` set rs \<and> c \<notin> set (map tc_contraparte ?v)" for c
  proof -
    from c have "c \<in> set (claves contraparte rs)" by (force simp: set_claves)
    then have "agg_contraparte rs c \<in> set ?S" by (simp add: set_S)
    then have "agg_contraparte rs c \<in> set (take 10 ?S) \<union> set (drop 10 ?S)"
      by (metis append_take_drop_id set_append)
    moreover have "agg_contraparte rs c \<notin> set (take 10 ?S)"
    proof
      assume "agg_contraparte rs c \<in> set (take 10 ?S)"
      then have "tc_contraparte (agg_contraparte rs c) \<in> set (take 10 (map tc_contraparte ?S))"
        by (force simp: take_map)
      with c show False by (simp add: nom agg_contraparte_sel)
    qed
    ultimately have d: "agg_contraparte rs c \<in> set (drop 10 ?S)" by blast
    then have "10 < length ?S" by (cases "10 < length ?S") auto
    then have l: "length ?v = 10" by (simp add: v)
    have "sorted_wrt (\<lambda>a b. tc_volumen_total b \<le> tc_volumen_total a) (take 10 ?S @ drop 10 ?S)"
      using s by simp
    then have "\<forall>a\<in>set (take 10 ?S). \<forall>b\<in>set (drop 10 ?S). tc_volumen_total b \<le> tc_volumen_total a"
      by (simp only: sorted_wrt_append) blast
    with d have "\<forall>a\<in>set (take 10 ?S). tc_volumen_total (agg_contraparte rs c) \<le> tc_volumen_total a"
      by blast
    then have "\<forall>g\<in>set ?v. suma_monto (filter (\<lambda>r. contraparte r = Some c) rs) \<le> tc_volumen_total g"
      by (auto simp: v agg_contraparte_sel grupo_def)
    with l show ?thesis by blast
  qed
  have mag: "\<forall>g\<in>set ?v.
           tc_volumen_total g =
             suma_magnitudes (filter (\<lambda>r. contraparte r = Some (tc_contraparte g)) rs)"
    if "list_all (\<lambda>r. 0 \<le> valor (monto r)) rs"
    using campos suma_monto_magnitudes[OF that] by simp
  show ?thesis
    unfolding vista_top_def using len dist campos ord fuera mag by blast
qed

section \<open>Facts about the generator\<close>

lemma bucle_fechas_val:
  "bucle_fechas fin d acc =
     (if d \<le> fin \<and> max_ordinal \<le> fin then Inl OverflowError
      else Inr (acc @ filter (\<lambda>x. weekday x < 5) [d..fin]))"
proof (induction fin d acc rule: bucle_fechas.induct)
  case (1 fin d acc)
  show ?case
  proof (cases "d \<le> fin")
    case False
    then show ?thesis by (simp add: bucle_fechas.simps[of fin d acc])
  next
    case le: True
    show ?thesis
    proof (cases "max_ordinal \<le> d")
      case True
      with le show ?thesis by (simp add: bucle_fechas.simps[of fin d acc] Let_def)
    next
      case False
      let ?acc = "if weekday d < 5 then acc @ [d] else acc"
      have ih: "bucle_fechas fin (d + 1) ?acc =
        (if d + 1 \<le> fin \<and> max_ordinal \<le> fin then Inl OverflowError
         else Inr (?acc @ filter (\<lambda>x. weekday x < 5) [d + 1..fin]))"
        using "1.IH"[OF le refl False] .
      have u: "[d..fin] = d # [d + 1..fin]" using le by (simp add: upto_rec1)
      have "bucle_fechas fin d acc = bucle_fechas fin (d + 1) ?acc"
        using le False by (simp add: bucle_fechas.simps[of fin d acc] Let_def)
      with ih le False show ?thesis by (auto simp: u)
    qed
  qed
qed

lemma choice_val:
  "choice xs u = Inl e \<longleftrightarrow> xs = [] \<and> e = IndexError"
  by (auto simp: choice_def)

lemma un_registro_ok:
  assumes "fs \<noteq> []" and "productos cfg \<noteq> []"
  shows "\<exists>r. un_registro cfg azar fs i = Inr r"
  using assms by (simp add: un_registro_def Let_def choice_def tipos_op_def contrapartes_def)

lemma un_registro_err:
  assumes "fs = [] \<or> productos cfg = []"
  shows "un_registro cfg azar fs i = Inl IndexError"
  using assms by (auto simp: un_registro_def Let_def choice_def split: sum.splits)

lemma bucle_registros_ok:
  assumes "fs \<noteq> []" and "productos cfg \<noteq> []"
  shows "\<exists>rs. bucle_registros cfg azar fs is acc = Inr (acc @ rs) \<and> length rs = length is"
proof (induction "is" arbitrary: acc)
  case Nil
  then show ?case by simp
next
  case (Cons i "is")
  from un_registro_ok[OF assms] obtain r where r: "un_registro cfg azar fs i = Inr r" by blast
  from Cons[of "acc @ [r]"] obtain rs where
    "bucle_registros cfg azar fs is (acc @ [r]) = Inr ((acc @ [r]) @ rs)" "length rs = length is"
    by blast
  then have "bucle_registros cfg azar fs (i # is) acc = Inr (acc @ (r # rs)) \<and> length (r # rs) = length (i # is)"
    by (simp add: r)
  then show ?case by blast
qed

lemma bucle_registros_err:
  assumes "fs = [] \<or> productos cfg = []" and "is \<noteq> []"
  shows "bucle_registros cfg azar fs is acc = Inl IndexError"
  using assms(2) by (cases "is") (simp_all add: un_registro_err[OF assms(1)])

lemma habiles_vacio:
  "filter (\<lambda>x. weekday x < 5) [a..b] = [] \<longleftrightarrow> (\<forall>d\<in>{a..b}. 5 \<le> weekday d)"
  by (auto simp: filter_empty_conv)

lemma generar_val:
  "generar cfg azar =
     (if fecha_inicio cfg \<le> fecha_fin cfg \<and> max_ordinal \<le> fecha_fin cfg then Inl OverflowError
      else if n_registros cfg \<le> 0 then Inl KeyError
      else if (\<forall>d\<in>{fecha_inicio cfg..fecha_fin cfg}. 5 \<le> weekday d) \<or> productos cfg = []
        then Inl IndexError
      else generar cfg azar)"
proof -
  let ?fs = "filter (\<lambda>x. weekday x < 5) [fecha_inicio cfg..fecha_fin cfg]"
  show ?thesis
  proof (cases "fecha_inicio cfg \<le> fecha_fin cfg \<and> max_ordinal \<le> fecha_fin cfg")
    case True
    then show ?thesis by (simp add: generar_def bucle_fechas_val)
  next
    case nov: False
    then have f: "bucle_fechas (fecha_fin cfg) (fecha_inicio cfg) [] = Inr ?fs"
      by (simp add: bucle_fechas_val)
    show ?thesis
    proof (cases "n_registros cfg \<le> 0")
      case True
      then have "[1..n_registros cfg] = []" by simp
      with nov True show ?thesis by (simp add: generar_def f)
    next
      case pos: False
      then have ne: "[1..n_registros cfg] \<noteq> []" by simp
      show ?thesis
      proof (cases "(\<forall>d\<in>{fecha_inicio cfg..fecha_fin cfg}. 5 \<le> weekday d) \<or> productos cfg = []")
        case True
        then have "?fs = [] \<or> productos cfg = []" by (simp only: habiles_vacio)
        from bucle_registros_err[OF this ne]
        have "bucle_registros cfg azar ?fs [1..n_registros cfg] [] = Inl IndexError" .
        with nov pos True show ?thesis by (simp add: generar_def f)
      next
        case False
        with nov pos show ?thesis by auto
      qed
    qed
  qed
qed

lemma generar_ok:
  assumes "\<not> (fecha_inicio cfg \<le> fecha_fin cfg \<and> max_ordinal \<le> fecha_fin cfg)"
    and "0 < n_registros cfg"
    and "\<not> (\<forall>d\<in>{fecha_inicio cfg..fecha_fin cfg}. 5 \<le> weekday d)"
    and "productos cfg \<noteq> []"
  shows "\<exists>movs. generar cfg azar = Inr (movs, productos cfg) \<and> length movs = nat (n_registros cfg)"
proof -
  let ?fs = "filter (\<lambda>x. weekday x < 5) [fecha_inicio cfg..fecha_fin cfg]"
  from assms(1) have f: "bucle_fechas (fecha_fin cfg) (fecha_inicio cfg) [] = Inr ?fs"
    by (simp add: bucle_fechas_val)
  from assms(3) have "?fs \<noteq> []" by (simp only: habiles_vacio not_False_eq_True)
  from bucle_registros_ok[OF this assms(4), of azar "[1..n_registros cfg]" "[]"]
  obtain rs where rs: "bucle_registros cfg azar ?fs [1..n_registros cfg] [] = Inr rs"
    "length rs = nat (n_registros cfg)" by auto
  with assms(2) have "rs \<noteq> []" by auto
  with rs show ?thesis by (simp add: generar_def f)
qed

section \<open>The claims\<close>

text \<open>
  Claim C1. The claim asks that the income and expense totals of every view add up, per
  currency, to the totals of the cleaned movements, also when a product id has no match
  and the product name is missing. On the sample data the movement with id 5 has no
  product name: it is kept by loading and by cleaning, the daily and the monthly view
  count its 250.50 PEN among the expenses (290.50 in all), and the product view leaves
  it out and reports 40.
\<close>

theorem por_producto_no_concilia:
  "case limpiar_datos lee_ej [cargar_datos movimientos_ej productos_ej] 0 of (h1, df1, n) \<Rightarrow>
     (case calcular_kpis h1 df1 of (h2, fd, pp, tc, al, rm) \<Rightarrow>
        map (\<lambda>r. (id_movimiento r, nombre_producto r, tipo_operacion r, monto r, moneda r))
          (filter (\<lambda>r. nombre_producto r = None) (filas (h1 ! df1))) =
          [(Some 5, None, Some ''egreso'', Num (501 / 2), Some ''PEN'')] \<and>
        suma_tipo ''egreso'' (filter (\<lambda>r. moneda r = Some ''PEN'') (filas (h1 ! df1))) = 581 / 2 \<and>
        sum_list (map fd_total_egresos (filter (\<lambda>g. fd_moneda g = ''PEN'') fd)) = 581 / 2 \<and>
        sum_list (map rm_total_egresos (filter (\<lambda>g. rm_moneda g = ''PEN'') rm)) = 581 / 2 \<and>
        sum_list (map pp_total_egresos (filter (\<lambda>g. pp_moneda g = ''PEN'') pp)) = 40)"
proof -
  obtain h1 df1 n where L: "limpiar_datos lee_ej [datos_ej] 0 = (h1, df1, n)"
    by (cases "limpiar_datos lee_ej [datos_ej] 0") auto
  note P = pipeline_val[OF L]
  let ?rs = "filas (limpio lee_ej datos_ej)"
  have e1: "map (\<lambda>r. (id_movimiento r, nombre_producto r, tipo_operacion r, monto r, moneda r))
          (filter (\<lambda>r. nombre_producto r = None) ?rs) =
          [(Some 5, None, Some ''egreso'', Num (501 / 2), Some ''PEN'')]" by code_simp
  have e2: "suma_tipo ''egreso'' (filter (\<lambda>r. moneda r = Some ''PEN'') ?rs) = 581 / 2" by code_simp
  have e3: "sum_list (map fd_total_egresos (filter (\<lambda>g. fd_moneda g = ''PEN'') (flujo_diario ?rs))) = 581 / 2"
    by code_simp
  have e4: "sum_list (map rm_total_egresos (filter (\<lambda>g. rm_moneda g = ''PEN'')
      (resumen_mensual (map (\<lambda>r. r\<lparr>mes := Some (str_mes (fecha r))\<rparr>) ?rs)))) = 581 / 2"
    by code_simp
  have e5: "sum_list (map pp_total_egresos (filter (\<lambda>g. pp_moneda g = ''PEN'') (por_producto ?rs))) = 40"
    by code_simp
  show ?thesis
    unfolding datos_ej_def[symmetric]
    using e1 e2 e3 e4 e5 by (simp add: L P)
qed

text \<open>
  Claim C3. Cleaning never looks at what the operation type says: a row is kept whenever
  its id is new, its four critical values are present and its amount is a number. A
  cleaned row whose operation type is neither \<open>ingreso\<close> nor \<open>egreso\<close> has
  minus its amount as signed amount, and it adds to no income or expense total: in the
  daily, product and monthly views every such total is the total over the rows of the
  group whose type is a known one.
\<close>

theorem tipo_desconocido:
  "case limpiar_datos lee h df of (h1, df1, n) \<Rightarrow>
     (case calcular_kpis h1 df1 of (h2, fd, pp, tc, al, rm) \<Rightarrow>
        (\<forall>r0\<in>set (drop_duplicates_aux [] (filas (h ! df))).
           sobrevive lee r0 \<longrightarrow> normaliza lee r0 \<in> set (filas (h1 ! df1))) \<and>
        (\<forall>r\<in>set (filas (h1 ! df1)).
           \<not> conocida r \<longrightarrow> (\<exists>x. monto r = Num x \<and> monto_neto r = Some (- x))) \<and>
        (\<forall>g\<in>set fd.
           fd_total_ingresos g =
             suma_tipo ''ingreso'' (grupo clave_fd (filter conocida (filas (h1 ! df1))) (fd_fecha g, fd_moneda g)) \<and>
           fd_total_egresos g =
             suma_tipo ''egreso'' (grupo clave_fd (filter conocida (filas (h1 ! df1))) (fd_fecha g, fd_moneda g))) \<and>
        (\<forall>g\<in>set pp.
           pp_total_ingresos g =
             suma_tipo ''ingreso'' (grupo clave_pp (filter conocida (filas (h1 ! df1))) (pp_nombre_producto g, pp_moneda g)) \<and>
           pp_total_egresos g =
             suma_tipo ''egreso'' (grupo clave_pp (filter conocida (filas (h1 ! df1))) (pp_nombre_producto g, pp_moneda g))) \<and>
        (\<forall>g\<in>set rm.
           rm_total_ingresos g =
             suma_tipo ''ingreso'' (grupo clave_rm (filter conocida (filas (h2 ! df1))) (rm_mes g, rm_moneda g)) \<and>
           rm_total_egresos g =
             suma_tipo ''egreso'' (grupo clave_rm (filter conocida (filas (h2 ! df1))) (rm_mes g, rm_moneda g))))"
proof -
  let ?rs = "filas (limpio lee (h ! df))"
  let ?rs' = "map (\<lambda>r. r\<lparr>mes := Some (str_mes (fecha r))\<rparr>) ?rs"
  obtain h1 df1 n where L: "limpiar_datos lee h df = (h1, df1, n)"
    by (cases "limpiar_datos lee h df") auto
  note P = pipeline_val[OF L]
  from L have df1: "df1 < length h1" by (auto simp: limpiar_datos_val)
  have m: "filas (h1[df1 := con_columna ''mes'' (\<lambda>r. r\<lparr>mes := Some (str_mes (fecha r))\<rparr>) (limpio lee (h ! df))] ! df1) = ?rs'"
    using df1 by (simp add: con_columna_def)
  have a: "\<forall>r0\<in>set (drop_duplicates_aux [] (filas (h ! df))).
           sobrevive lee r0 \<longrightarrow> normaliza lee r0 \<in> set ?rs"
    by (simp add: limpio_def)
  have b: "\<forall>r\<in>set ?rs. \<not> conocida r \<longrightarrow> (\<exists>x. monto r = Num x \<and> monto_neto r = Some (- x))"
    using filas_limpio(4) by (fastforce simp: conocida_def)
  have c: "\<forall>g\<in>set (flujo_diario ?rs).
           fd_total_ingresos g =
             suma_tipo ''ingreso'' (grupo clave_fd (filter conocida ?rs) (fd_fecha g, fd_moneda g)) \<and>
           fd_total_egresos g =
             suma_tipo ''egreso'' (grupo clave_fd (filter conocida ?rs) (fd_fecha g, fd_moneda g))"
    by (simp add: suma_tipo_conocidas fd_campos)
  have d: "\<forall>g\<in>set (por_producto ?rs).
           pp_total_ingresos g =
             suma_tipo ''ingreso'' (grupo clave_pp (filter conocida ?rs) (pp_nombre_producto g, pp_moneda g)) \<and>
           pp_total_egresos g =
             suma_tipo ''egreso'' (grupo clave_pp (filter conocida ?rs) (pp_nombre_producto g, pp_moneda g))"
    by (simp add: suma_tipo_conocidas pp_campos)
  have e: "\<forall>g\<in>set (resumen_mensual ?rs').
           rm_total_ingresos g =
             suma_tipo ''ingreso'' (grupo clave_rm (filter conocida ?rs') (rm_mes g, rm_moneda g)) \<and>
           rm_total_egresos g =
             suma_tipo ''egreso'' (grupo clave_rm (filter conocida ?rs') (rm_mes g, rm_moneda g))"
    by (simp add: suma_tipo_conocidas rm_campos)
  show ?thesis
    using a b c d e by (simp only: L P split_conv m)
qed

theorem tipo_desconocido_witness:
  "(case limpiar_datos lee_ej [datos_ej] 0 of (h1, df1, n) \<Rightarrow>
     (case calcular_kpis h1 df1 of (h2, fd, pp, tc, al, rm) \<Rightarrow>
        h1 ! df1 = limpio lee_ej datos_ej \<and> fd = flujo_diario (filas (limpio lee_ej datos_ej)) \<and>
        fila_ej 6 (2024, 1, 5) 2 ''ajuste'' (Num 10) ''PEN'' ''BBVA''\<lparr>nombre_producto := Some ''Repo''\<rparr>
          \<in> set (drop_duplicates_aux [] (filas ([datos_ej] ! 0))) \<and>
        normaliza lee_ej (fila_ej 6 (2024, 1, 5) 2 ''ajuste'' (Num 10) ''PEN'' ''BBVA''\<lparr>nombre_producto := Some ''Repo''\<rparr>)
          \<in> set (filas (h1 ! df1)))) \<and>
   map (\<lambda>r. (id_movimiento r, tipo_operacion r, monto r, monto_neto r))
     (filter (\<lambda>r. \<not> conocida r) (filas (limpio lee_ej datos_ej))) =
     [(Some 6, Some ''ajuste'', Num 10, Some (- 10))] \<and>
   map (\<lambda>g. (fd_fecha g, fd_moneda g, fd_total_ingresos g, fd_total_egresos g, fd_flujo_neto g))
     (flujo_diario (filas (limpio lee_ej datos_ej))) =
     [((2024, 1, 2), ''PEN'', 100, 40, 60), ((2024, 1, 3), ''USD'', 50, 0, 50),
      ((2024, 1, 4), ''PEN'', 0, 501 / 2, - (501 / 2)), ((2024, 1, 5), ''PEN'', 0, 0, - 10)]"
proof -
  obtain h1 df1 n where L: "limpiar_datos lee_ej [datos_ej] 0 = (h1, df1, n)"
    by (cases "limpiar_datos lee_ej [datos_ej] 0") auto
  note P = pipeline_val[OF L]
  let ?r0 = "fila_ej 6 (2024, 1, 5) 2 ''ajuste'' (Num 10) ''PEN'' ''BBVA''\<lparr>nombre_producto := Some ''Repo''\<rparr>"
  have e0: "?r0 \<in> set (drop_duplicates_aux [] (filas datos_ej))" by code_simp
  have e1: "sobrevive lee_ej ?r0" by code_simp
  have e2: "map (\<lambda>r. (id_movimiento r, tipo_operacion r, monto r, monto_neto r))
     (filter (\<lambda>r. \<not> conocida r) (filas (limpio lee_ej datos_ej))) =
     [(Some 6, Some ''ajuste'', Num 10, Some (- 10))]" by code_simp
  have e3: "map (\<lambda>g. (fd_fecha g, fd_moneda g, fd_total_ingresos g, fd_total_egresos g, fd_flujo_neto g))
     (flujo_diario (filas (limpio lee_ej datos_ej))) =
     [((2024, 1, 2), ''PEN'', 100, 40, 60), ((2024, 1, 3), ''USD'', 50, 0, 50),
      ((2024, 1, 4), ''PEN'', 0, 501 / 2, - (501 / 2)), ((2024, 1, 5), ''PEN'', 0, 0, - 10)]" by code_simp
  from tipo_desconocido[where lee=lee_ej and h="[datos_ej]" and df=0]
  have "normaliza lee_ej ?r0 \<in> set (filas (limpio lee_ej datos_ej))"
    using e0 e1 by (simp only: L P split_conv nth_Cons_0)
  with e0 e2 e3 show ?thesis by (simp add: L P)
qed

text \<open>
  Claim C4, amended. Computing the views changes the caller's table in one way: it writes
  the month column \<open>mes\<close> into it, appended when the table lacks it, and every row
  receives the month of its date. No row is added, dropped or moved, no other value
  changes, no other object of the store is touched, and the five views are those computed
  from the table alone.
\<close>

theorem calcular_kpis_efecto:
  assumes "df < length h"
  shows "case calcular_kpis h df of (h', v) \<Rightarrow>
     length h' = length h \<and> h'[df := h ! df] = h \<and>
     columnas (h' ! df) =
       (if ''mes'' \<in> set (columnas (h ! df)) then columnas (h ! df) else columnas (h ! df) @ [''mes'']) \<and>
     filas (h' ! df) = map (\<lambda>r. r\<lparr>mes := Some (str_mes (fecha r))\<rparr>) (filas (h ! df)) \<and>
     v = snd (calcular_kpis [h ! df] 0)"
  using assms by (simp add: calcular_kpis_val con_columna_def)

theorem calcular_kpis_efecto_witness:
  "0 < length [limpio lee_ej datos_ej] \<and>
   (case calcular_kpis [limpio lee_ej datos_ej] 0 of (h', v) \<Rightarrow>
      length h' = 1 \<and> h'[0 := limpio lee_ej datos_ej] = [limpio lee_ej datos_ej] \<and>
      filas (h' ! 0) = map (\<lambda>r. r\<lparr>mes := Some (str_mes (fecha r))\<rparr>) (filas (limpio lee_ej datos_ej)) \<and>
      map mes (filas (h' ! 0)) =
        [Some ''2024-01'', Some ''2024-01'', Some ''2024-01'', Some ''2024-01'', Some ''2024-01''] \<and>
      columnas (h' ! 0) = columnas (limpio lee_ej datos_ej) @ [''mes''])"
proof -
  have e1: "''mes'' \<notin> set (columnas (limpio lee_ej datos_ej))" by code_simp
  have e2: "map mes (map (\<lambda>r. r\<lparr>mes := Some (str_mes (fecha r))\<rparr>) (filas (limpio lee_ej datos_ej))) =
        [Some ''2024-01'', Some ''2024-01'', Some ''2024-01'', Some ''2024-01'', Some ''2024-01'']"
    by code_simp
  have h: "0 < length [limpio lee_ej datos_ej]" by simp
  from calcular_kpis_efecto[OF h] e1 e2 show ?thesis
    by (simp add: calcular_kpis_val split: prod.splits)
qed

text \<open>
  Claim C4 as stated fails: after the call the caller's cleaned table has a column it did
  not have.
\<close>

theorem calcular_kpis_muta_contraejemplo:
  "case limpiar_datos lee_ej [datos_ej] 0 of (h1, df1, n) \<Rightarrow>
     (case calcular_kpis h1 df1 of (h2, v) \<Rightarrow>
        ''mes'' \<notin> set (columnas (h1 ! df1)) \<and> ''mes'' \<in> set (columnas (h2 ! df1)) \<and>
        h2 ! df1 \<noteq> h1 ! df1)"
proof -
  obtain h1 df1 n where L: "limpiar_datos lee_ej [datos_ej] 0 = (h1, df1, n)"
    by (cases "limpiar_datos lee_ej [datos_ej] 0") auto
  note P = pipeline_val[OF L]
  from L have df1: "df1 < length h1" by (auto simp: limpiar_datos_val)
  have e1: "''mes'' \<notin> set (columnas (limpio lee_ej datos_ej))" by code_simp
  have "''mes'' \<in> set (columnas (con_columna ''mes'' (\<lambda>r. r\<lparr>mes := Some (str_mes (fecha r))\<rparr>) (limpio lee_ej datos_ej)))"
    by (simp add: con_columna_def)
  with e1 df1 show ?thesis by (auto simp add: L P)
qed

text \<open>
  Claim C5, amended. For every cleaned table the counterparty view has at most ten rows,
  no counterparty twice, each row a counterparty of the table; the volume of a row is the
  sum of the amounts of the counterparty's rows as they stand, which is the sum of their
  magnitudes when no amount is negative; the rows are in descending order of volume, and
  a counterparty that is left out has a volume no larger than any in the view. Nothing
  is fixed about the order of counterparties of equal volume: all of this holds of the
  view with any sort that returns the same rows in descending order of volume, and the
  view of the model is the one with \<open>sort_values_desc\<close>.
\<close>

theorem top_contrapartes_orden:
  assumes "ordena_desc ordena"
  shows "case limpiar_datos lee h df of (h1, df1, n) \<Rightarrow>
     (case calcular_kpis h1 df1 of (h2, fd, pp, tc, al, rm) \<Rightarrow>
        vista_top (filas (h1 ! df1)) tc \<and>
        tc = top_contrapartes_con sort_values_desc (filas (h1 ! df1)) \<and>
        vista_top (filas (h1 ! df1)) (top_contrapartes_con ordena (filas (h1 ! df1))))"
proof -
  obtain h1 df1 n where L: "limpiar_datos lee h df = (h1, df1, n)"
    by (cases "limpiar_datos lee h df") auto
  note P = pipeline_val[OF L]
  show ?thesis
    using vista_top_con[OF assms] vista_top_con[OF ordena_desc_sort_values_desc]
    by (simp add: L P top_contrapartes_def)
qed

theorem top_contrapartes_orden_witness:
  "ordena_desc sort_values_desc_inv \<and>
   (case limpiar_datos lee_ej [empate_ej] 0 of (h1, df1, n) \<Rightarrow>
     (case calcular_kpis h1 df1 of (h2, fd, pp, tc, al, rm) \<Rightarrow>
        h1 ! df1 = limpio lee_ej empate_ej \<and>
        list_all (\<lambda>r. 0 \<le> valor (monto r)) (filas (h1 ! df1)) \<and>
        vista_top (filas (h1 ! df1)) tc \<and>
        vista_top (filas (h1 ! df1)) (top_contrapartes_con sort_values_desc_inv (filas (h1 ! df1))) \<and>
        map (\<lambda>g. (tc_contraparte g, tc_n_operaciones g, tc_volumen_total g, tc_monto_promedio g)) tc =
          [(''BBVA'', 1, 100, Some 100), (''Scotiabank'', 1, 100, Some 100)] \<and>
        map (\<lambda>g. (tc_contraparte g, tc_n_operaciones g, tc_volumen_total g, tc_monto_promedio g))
          (top_contrapartes_con sort_values_desc_inv (filas (h1 ! df1))) =
          [(''Scotiabank'', 1, 100, Some 100), (''BBVA'', 1, 100, Some 100)]))"
proof -
  obtain h1 df1 n where L: "limpiar_datos lee_ej [empate_ej] 0 = (h1, df1, n)"
    by (cases "limpiar_datos lee_ej [empate_ej] 0") auto
  note P = pipeline_val[OF L]
  have e0: "list_all (\<lambda>r. 0 \<le> valor (monto r)) (filas (limpio lee_ej empate_ej))" by code_simp
  have e1: "map (\<lambda>g. (tc_contraparte g, tc_n_operaciones g, tc_volumen_total g, tc_monto_promedio g))
      (top_contrapartes (filas (limpio lee_ej empate_ej))) =
          [(''BBVA'', 1, 100, Some 100), (''Scotiabank'', 1, 100, Some 100)]" by code_simp
  have e2: "map (\<lambda>g. (tc_contraparte g, tc_n_operaciones g, tc_volumen_total g, tc_monto_promedio g))
      (top_contrapartes_con sort_values_desc_inv (filas (limpio lee_ej empate_ej))) =
          [(''Scotiabank'', 1, 100, Some 100), (''BBVA'', 1, 100, Some 100)]" by code_simp
  from top_contrapartes_orden[OF ordena_desc_sort_values_desc_inv,
      where lee=lee_ej and h="[empate_ej]" and df=0] e0 e1 e2
  show ?thesis by (auto simp: L P ordena_desc_sort_values_desc_inv)
qed

text \<open>
  Claim C5 as stated fails. BCP has one movement of \<open>- 500\<close> and BBVA one of
  \<open>100\<close>: the magnitudes are 500 and 100, the volumes the script adds up are
  \<open>- 500\<close> and \<open>100\<close>, and the view lists BBVA first, whichever sort is used, so
  it is not in descending order of the sums of magnitudes. On ties the script asks only
  for a descending sort: with Scotiabank before BBVA in the table and equal volumes, one
  such sort lists BBVA first and another lists Scotiabank first.
\<close>

theorem top_contrapartes_magnitud_contraejemplo:
  "(case limpiar_datos lee_ej [negativo_ej] 0 of (h1, df1, n) \<Rightarrow>
     (case calcular_kpis h1 df1 of (h2, fd, pp, tc, al, rm) \<Rightarrow>
        map (\<lambda>r. (contraparte r, monto r)) (filas (h1 ! df1)) =
          [(Some ''BCP'', Num (- 500)), (Some ''BBVA'', Num 100)] \<and>
        map (\<lambda>g. (tc_contraparte g, tc_volumen_total g)) tc = [(''BBVA'', 100), (''BCP'', - 500)] \<and>
        map (\<lambda>g. (tc_contraparte g, tc_volumen_total g))
          (top_contrapartes_con sort_values_desc_inv (filas (h1 ! df1))) =
          [(''BBVA'', 100), (''BCP'', - 500)] \<and>
        suma_magnitudes (filter (\<lambda>r. contraparte r = Some ''BBVA'') (filas (h1 ! df1))) = 100 \<and>
        suma_magnitudes (filter (\<lambda>r. contraparte r = Some ''BCP'') (filas (h1 ! df1))) = 500)) \<and>
   ordena_desc sort_values_desc \<and> ordena_desc sort_values_desc_inv \<and>
   map contraparte (filas (limpio lee_ej empate_ej)) = [Some ''Scotiabank'', Some ''BBVA''] \<and>
   map (\<lambda>g. (tc_contraparte g, tc_volumen_total g))
     (top_contrapartes_con sort_values_desc (filas (limpio lee_ej empate_ej))) =
     [(''BBVA'', 100), (''Scotiabank'', 100)] \<and>
   map (\<lambda>g. (tc_contraparte g, tc_volumen_total g))
     (top_contrapartes_con sort_values_desc_inv (filas (limpio lee_ej empate_ej))) =
     [(''Scotiabank'', 100), (''BBVA'', 100)]"
proof -
  obtain h1 df1 n where L: "limpiar_datos lee_ej [negativo_ej] 0 = (h1, df1, n)"
    by (cases "limpiar_datos lee_ej [negativo_ej] 0") auto
  note P = pipeline_val[OF L]
  let ?rs = "filas (limpio lee_ej negativo_ej)"
  have a1: "map (\<lambda>r. (contraparte r, monto r)) ?rs =
          [(Some ''BCP'', Num (- 500)), (Some ''BBVA'', Num 100)]" by code_simp
  have a2: "map (\<lambda>g. (tc_contraparte g, tc_volumen_total g)) (top_contrapartes ?rs) =
          [(''BBVA'', 100), (''BCP'', - 500)]" by code_simp
  have a3: "map (\<lambda>g. (tc_contraparte g, tc_volumen_total g))
          (top_contrapartes_con sort_values_desc_inv ?rs) = [(''BBVA'', 100), (''BCP'', - 500)]"
    by code_simp
  have a4: "suma_magnitudes (filter (\<lambda>r. contraparte r = Some ''BBVA'') ?rs) = 100" by code_simp
  have a5: "suma_magnitudes (filter (\<lambda>r. contraparte r = Some ''BCP'') ?rs) = 500" by code_simp
  have b1: "map contraparte (filas (limpio lee_ej empate_ej)) = [Some ''Scotiabank'', Some ''BBVA'']"
    by code_simp
  have b2: "map (\<lambda>g. (tc_contraparte g, tc_volumen_total g))
     (top_contrapartes_con sort_values_desc (filas (limpio lee_ej empate_ej))) =
     [(''BBVA'', 100), (''Scotiabank'', 100)]" by code_simp
  have b3: "map (\<lambda>g. (tc_contraparte g, tc_volumen_total g))
     (top_contrapartes_con sort_values_desc_inv (filas (limpio lee_ej empate_ej))) =
     [(''Scotiabank'', 100), (''BBVA'', 100)]" by code_simp
  from a1 a2 a3 a4 a5 b1 b2 b3 show ?thesis
    by (simp add: L P ordena_desc_sort_values_desc ordena_desc_sort_values_desc_inv)
qed

text \<open>
  Claim C6. The liquidity alerts are exactly the daily rows in PEN whose net flow is
  strictly negative, each with its date, net flow and running balance (no other daily row
  appears, none is missing or repeated); they are in ascending order of net flow, the
  most negative day first, and each carries the warning text.
\<close>

theorem alertas_de_liquidez:
  "case calcular_kpis h df of (h', fd, pp, tc, al, rm) \<Rightarrow>
     mset (map (\<lambda>a. (al_fecha a, al_flujo_neto a, al_saldo_acumulado a)) al) =
       mset (map (\<lambda>g. (fd_fecha g, fd_flujo_neto g, fd_saldo_acumulado g))
         (filter (\<lambda>g. fd_moneda g = ''PEN'' \<and> fd_flujo_neto g < 0) fd)) \<and>
     sorted (map al_flujo_neto al) \<and>
     (\<forall>a\<in>set al. al_estado a = estado_alerta)"
  unfolding calcular_kpis_def Let_def split_conv
  by (intro conjI ballI alertas_mset alertas_sorted alertas_estado)

theorem alertas_de_liquidez_witness:
  "(case calcular_kpis [limpio lee_ej datos_ej] 0 of (h', fd, pp, tc, al, rm) \<Rightarrow>
     mset (map (\<lambda>a. (al_fecha a, al_flujo_neto a, al_saldo_acumulado a)) al) =
       mset (map (\<lambda>g. (fd_fecha g, fd_flujo_neto g, fd_saldo_acumulado g))
         (filter (\<lambda>g. fd_moneda g = ''PEN'' \<and> fd_flujo_neto g < 0) fd)) \<and>
     sorted (map al_flujo_neto al) \<and>
     (\<forall>a\<in>set al. al_estado a = estado_alerta) \<and>
     map (\<lambda>a. (al_fecha a, al_flujo_neto a, al_saldo_acumulado a)) al =
       [((2024, 1, 4), - (501 / 2), Some (- (381 / 2))), ((2024, 1, 5), - 10, Some (- (401 / 2)))])"
proof -
  have e: "map (\<lambda>a. (al_fecha a, al_flujo_neto a, al_saldo_acumulado a))
      (alertas_de (flujo_diario (filas (limpio lee_ej datos_ej)))) =
       [((2024, 1, 4), - (501 / 2), Some (- (381 / 2))), ((2024, 1, 5), - 10, Some (- (401 / 2)))]"
    by code_simp
  from alertas_de_liquidez[where h="[limpio lee_ej datos_ej]" and df=0] e
  show ?thesis by (simp add: calcular_kpis_val)
qed

text \<open>
  Claim C7. For every input table, the cleaning step returns a new table and leaves the
  caller's table as it was: every object that was in the store before the call is
  unchanged after it, the returned reference is a fresh one, and the reported number of
  removed rows is the number of input rows minus the number of rows of the returned
  table.
\<close>

theorem limpiar_datos_no_muta:
  "case limpiar_datos lee h df of (h', df', eliminados) \<Rightarrow>
     take (length h) h' = h \<and> length h \<le> df' \<and> df' < length h' \<and>
     eliminados = int (length (filas (h ! df))) - int (length (filas (h' ! df')))"
  by (simp add: limpiar_datos_val nth_append)

theorem limpiar_datos_no_muta_witness:
  "(case limpiar_datos lee_ej [datos_ej] 0 of (h', df', eliminados) \<Rightarrow>
      take (length [datos_ej]) h' = [datos_ej] \<and> length [datos_ej] \<le> df' \<and> df' < length h' \<and>
      eliminados = int (length (filas ([datos_ej] ! 0))) - int (length (filas (h' ! df')))) \<and>
   length (filas datos_ej) = 8 \<and> snd (snd (limpiar_datos lee_ej [datos_ej] 0)) = 3"
proof -
  have a: "length (filas datos_ej) = 8" by code_simp
  have b: "length (filas (limpio lee_ej datos_ej)) = 5" by code_simp
  have c: "snd (snd (limpiar_datos lee_ej [datos_ej] 0)) = 3"
    by (simp add: limpiar_datos_val a b)
  from limpiar_datos_no_muta[where lee=lee_ej and h="[datos_ej]" and df=0] a c show ?thesis by blast
qed

text \<open>
  Claim C8. Cleaning is idempotent: cleaning the table that cleaning returned removes no
  row and returns a table equal to it, with the same columns, the same rows, the same
  normalised values and the same signed amounts.
\<close>

theorem limpiar_datos_idempotente:
  "case limpiar_datos lee h df of (h1, df1, n1) \<Rightarrow>
     (case limpiar_datos lee h1 df1 of (h2, df2, n2) \<Rightarrow> n2 = 0 \<and> h2 ! df2 = h1 ! df1)"
  by (simp add: limpiar_datos_val limpio_idem nth_append)

theorem limpiar_datos_idempotente_witness:
  "(case limpiar_datos lee_ej [datos_ej] 0 of (h1, df1, n1) \<Rightarrow>
      (case limpiar_datos lee_ej h1 df1 of (h2, df2, n2) \<Rightarrow> n2 = 0 \<and> h2 ! df2 = h1 ! df1)) \<and>
   map tipo_operacion (filas (limpio lee_ej datos_ej)) =
     [Some ''ingreso'', Some ''egreso'', Some ''ingreso'', Some ''egreso'', Some ''ajuste'']"
proof -
  have "map tipo_operacion (filas (limpio lee_ej datos_ej)) =
     [Some ''ingreso'', Some ''egreso'', Some ''ingreso'', Some ''egreso'', Some ''ajuste'']"
    by code_simp
  with limpiar_datos_idempotente[where lee=lee_ej and h="[datos_ej]" and df=0] show ?thesis by blast
qed

text \<open>
  Claim C9, amended. The generator checks nothing about its configuration. It stops with
  an error, before it writes anything, exactly in these cases: the range is not inverted
  and ends on the last date there is (\<open>OverflowError\<close> from stepping past it), the
  number of records is not positive (\<open>KeyError\<close> from sorting a table without
  columns), the range holds no business day, as every inverted range does, or the
  catalogue is empty (\<open>IndexError\<close> from \<open>random.choice\<close>). In every other
  configuration it writes exactly the configured number of movements, at least one, and
  the catalogue. So an empty catalogue and an inverted range always end in an error and no
  empty set of movements is ever written, but they are not the only error conditions.
\<close>

theorem generar_errores:
  "((\<exists>e. generar cfg azar = Inl e) \<longleftrightarrow>
      (fecha_inicio cfg \<le> fecha_fin cfg \<and> max_ordinal \<le> fecha_fin cfg) \<or>
      n_registros cfg \<le> 0 \<or>
      (\<forall>d\<in>{fecha_inicio cfg..fecha_fin cfg}. 5 \<le> weekday d) \<or>
      productos cfg = []) \<and>
   (\<forall>movs prods. generar cfg azar = Inr (movs, prods) \<longrightarrow>
      length movs = nat (n_registros cfg) \<and> movs \<noteq> [] \<and> prods = productos cfg) \<and>
   (fecha_fin cfg < fecha_inicio cfg \<or> productos cfg = [] \<longrightarrow> (\<exists>e. generar cfg azar = Inl e))"
proof -
  let ?bad = "(fecha_inicio cfg \<le> fecha_fin cfg \<and> max_ordinal \<le> fecha_fin cfg) \<or>
      n_registros cfg \<le> 0 \<or>
      (\<forall>d\<in>{fecha_inicio cfg..fecha_fin cfg}. 5 \<le> weekday d) \<or>
      productos cfg = []"
  have bad: "?bad \<Longrightarrow> \<exists>e. generar cfg azar = Inl e"
    by (subst generar_val) auto
  have good: "\<not> ?bad \<Longrightarrow>
     \<exists>movs. generar cfg azar = Inr (movs, productos cfg) \<and> length movs = nat (n_registros cfg)"
    by (rule generar_ok) auto
  have a: "(\<exists>e. generar cfg azar = Inl e) \<longleftrightarrow> ?bad"
    using bad good by (cases ?bad) auto
  have b: "\<forall>movs prods. generar cfg azar = Inr (movs, prods) \<longrightarrow>
      length movs = nat (n_registros cfg) \<and> movs \<noteq> [] \<and> prods = productos cfg"
  proof (intro allI impI)
    fix movs prods assume g: "generar cfg azar = Inr (movs, prods)"
    then have nb: "\<not> ?bad" using bad by auto
    from good[OF nb] g have "length movs = nat (n_registros cfg)" "prods = productos cfg" by auto
    moreover from nb have "0 < nat (n_registros cfg)" by auto
    ultimately show "length movs = nat (n_registros cfg) \<and> movs \<noteq> [] \<and> prods = productos cfg"
      by auto
  qed
  have c: "fecha_fin cfg < fecha_inicio cfg \<or> productos cfg = [] \<longrightarrow> (\<exists>e. generar cfg azar = Inl e)"
    using bad by auto
  from a b c show ?thesis by blast
qed

theorem generar_errores_witness:
  "(case generar config_semana azar_ej of
      Inl e \<Rightarrow> False
    | Inr (movs, prods) \<Rightarrow>
        prods = catalogo \<and>
        map (\<lambda>r. (reg_id_movimiento r, reg_fecha r, reg_producto_id r, reg_tipo_operacion r,
                   reg_monto r, reg_moneda r, reg_contraparte r)) movs =
          [(1, 738888, 3, ''egreso'', 152500, ''PEN'', ''Citibank''),
           (2, 738888, 3, ''egreso'', 152500, ''PEN'', ''Citibank'')]) \<and>
   (\<exists>movs. generar config_semana azar_ej = Inr (movs, productos config_semana) \<and>
      length movs = nat (n_registros config_semana) \<and> movs \<noteq> [])"
proof -
  have e: "(case generar config_semana azar_ej of
      Inl e \<Rightarrow> False
    | Inr (movs, prods) \<Rightarrow>
        prods = catalogo \<and>
        map (\<lambda>r. (reg_id_movimiento r, reg_fecha r, reg_producto_id r, reg_tipo_operacion r,
                   reg_monto r, reg_moneda r, reg_contraparte r)) movs =
          [(1, 738888, 3, ''egreso'', 152500, ''PEN'', ''Citibank''),
           (2, 738888, 3, ''egreso'', 152500, ''PEN'', ''Citibank'')])"
    by code_simp
  then obtain movs prods where g: "generar config_semana azar_ej = Inr (movs, prods)"
    by (cases "generar config_semana azar_ej") auto
  with generar_errores[where cfg=config_semana and azar=azar_ej]
  have "length movs = nat (n_registros config_semana) \<and> movs \<noteq> [] \<and> prods = productos config_semana"
    by blast
  with g e show ?thesis by auto
qed

text \<open>
  Claim C9 as stated fails on the word only: with a full catalogue and a range that is
  not inverted the generator stops with an error when the range is one weekend, and when
  no record is asked for.
\<close>

theorem generar_otros_errores_contraejemplo:
  "generar config_fin_de_semana azar_ej = Inl IndexError \<and>
   fecha_inicio config_fin_de_semana \<le> fecha_fin config_fin_de_semana \<and>
   productos config_fin_de_semana \<noteq> [] \<and>
   generar config_sin_registros azar_ej = Inl KeyError \<and>
   fecha_inicio config_sin_registros \<le> fecha_fin config_sin_registros \<and>
   productos config_sin_registros \<noteq> []"
proof -
  have f: "bucle_fechas 738892 738891 [] = Inr []" by code_simp
  have ne: "[1..500::int] \<noteq> []" by simp
  have r: "bucle_registros config_fin_de_semana azar_ej [] [1..500] [] = Inl IndexError"
    by (rule bucle_registros_err[OF _ ne]) simp
  have a: "generar config_fin_de_semana azar_ej = Inl IndexError"
    using r by (simp add: generar_def config_fin_de_semana_def f)
  have b: "fecha_inicio config_fin_de_semana \<le> fecha_fin config_fin_de_semana \<and>
      productos config_fin_de_semana \<noteq> []"
    by (simp add: config_fin_de_semana_def catalogo_def)
  have c: "generar config_sin_registros azar_ej = Inl KeyError" by code_simp
  have d: "fecha_inicio config_sin_registros \<le> fecha_fin config_sin_registros \<and>
      productos config_sin_registros \<noteq> []"
    by (simp add: config_sin_registros_def catalogo_def)
  from a b c d show ?thesis by blast
qed

text \<open>
  Claim C10. The workbook always has the six sheets, in the order daily flow, monthly
  summary, by product, top counterparties, liquidity alerts, full data (under their
  Spanish names). When there is no alert the alerts sheet is still written and holds
  exactly one row, the message; otherwise it holds the alerts.
\<close>

theorem exportar_excel_hojas:
  "map fst (exportar_excel h df fd pp tc al rm) =
     [''Flujo Diario'', ''Resumen Mensual'', ''Por Producto'', ''Top Contrapartes'',
      ''Alertas Liquidez'', ''Data Completa''] \<and>
   (al = [] \<longrightarrow>
      exportar_excel h df fd pp tc al rm ! 4 = (''Alertas Liquidez'', HojaMensaje [sin_alertas]) \<and>
      n_filas (snd (exportar_excel h df fd pp tc al rm ! 4)) = 1) \<and>
   (al \<noteq> [] \<longrightarrow> exportar_excel h df fd pp tc al rm ! 4 = (''Alertas Liquidez'', HojaAlertas al))"
  by (simp add: exportar_excel_def)

theorem exportar_excel_hojas_witness:
  "(case limpiar_datos lee_ej [tres_ej] 0 of (h1, df1, n) \<Rightarrow>
     (case calcular_kpis h1 df1 of (h2, fd, pp, tc, al, rm) \<Rightarrow>
        al = [] \<and>
        map fst (exportar_excel h2 df1 fd pp tc al rm) =
          [''Flujo Diario'', ''Resumen Mensual'', ''Por Producto'', ''Top Contrapartes'',
           ''Alertas Liquidez'', ''Data Completa''] \<and>
        exportar_excel h2 df1 fd pp tc al rm ! 4 = (''Alertas Liquidez'', HojaMensaje [sin_alertas]) \<and>
        n_filas (snd (exportar_excel h2 df1 fd pp tc al rm ! 4)) = 1))"
proof -
  obtain h1 df1 n where L: "limpiar_datos lee_ej [tres_ej] 0 = (h1, df1, n)"
    by (cases "limpiar_datos lee_ej [tres_ej] 0") auto
  note P = pipeline_val[OF L]
  have e1: "alertas_de (flujo_diario (filas (limpio lee_ej tres_ej))) = []" by code_simp
  show ?thesis
    using e1 exportar_excel_hojas[where al="[]"]
    by (simp add: L P)
qed


end
